theory Spec2Isabelle
  imports Complex_Main "HOL-Library.List_Lexorder"
begin

section \<open>JavaScript values\<close>

text \<open>
  A JavaScript string is a sequence of UTF-16 code units; it is held as the list of
  their numbers, so that the Hangul of the file suffixes and of the warning texts is
  ordinary data. \<open>js\<close> reads an ASCII literal.
\<close>

type_synonym jsstring = "nat list"

definition js :: "string \<Rightarrow> jsstring" where
  "js s = map of_char s"

text \<open>
  A number is a finite value, an infinity or NaN. A finite value is a rational: every
  double is one, and \<open>Math.floor\<close> of a double is again a double. Division and
  multiplication round their result to the nearest double (\<open>roundDouble\<close> below).
  \<open>Number\<close> of a string gives the exact value of the literal: the strings it is
  given here are the digits of a year, a month or a day, or no number at all.
\<close>

datatype jsnum = Fin rat | PosInf | NegInf | NaN

datatype jsvalue = JNull | JUndefined | JBool bool | JNum jsnum | JStr jsstring | JObject

subsection \<open>String.prototype.trim and Number(string)\<close>

definition isWhiteSpace :: "nat \<Rightarrow> bool" where
  "isWhiteSpace c \<longleftrightarrow>
     (9 \<le> c \<and> c \<le> 13) \<or> c = 32 \<or> c = 160 \<or> c = 5760 \<or> (8192 \<le> c \<and> c \<le> 8202) \<or>
     c = 8232 \<or> c = 8233 \<or> c = 8239 \<or> c = 8287 \<or> c = 12288 \<or> c = 65279"

definition trim :: "jsstring \<Rightarrow> jsstring" where
  "trim s = rev (dropWhile isWhiteSpace (rev (dropWhile isWhiteSpace s)))"

definition isDigit :: "nat \<Rightarrow> bool" where
  "isDigit c \<longleftrightarrow> 48 \<le> c \<and> c \<le> 57"

definition digitOf :: "nat \<Rightarrow> nat option" where
  "digitOf c =
     (if 48 \<le> c \<and> c \<le> 57 then Some (c - 48)
      else if 97 \<le> c \<and> c \<le> 102 then Some (c - 87)
      else if 65 \<le> c \<and> c \<le> 70 then Some (c - 55)
      else None)"

definition radixValue :: "nat \<Rightarrow> jsstring \<Rightarrow> nat" where
  "radixValue b ds = foldl (\<lambda>a c. b * a + (case digitOf c of Some v \<Rightarrow> v | None \<Rightarrow> 0)) 0 ds"

definition radixLiteral :: "nat \<Rightarrow> jsstring \<Rightarrow> jsnum" where
  "radixLiteral b ds =
     (if ds \<noteq> [] \<and> list_all (\<lambda>c. case digitOf c of Some v \<Rightarrow> v < b | None \<Rightarrow> False) ds
      then Fin (of_nat (radixValue b ds)) else NaN)"

text \<open>The optional exponent part of a decimal literal; \<open>None\<close> when it is malformed.\<close>

definition exponentPart :: "jsstring \<Rightarrow> int option" where
  "exponentPart r =
     (if r = [] then Some 0
      else if hd r = 101 \<or> hd r = 69 then
        (let t = tl r;
             neg = (t \<noteq> [] \<and> hd t = 45);
             ds = (if t \<noteq> [] \<and> (hd t = 43 \<or> hd t = 45) then tl t else t)
         in if ds \<noteq> [] \<and> list_all isDigit ds
            then Some (if neg then - int (radixValue 10 ds) else int (radixValue 10 ds))
            else None)
      else None)"

definition scale10 :: "rat \<Rightarrow> int \<Rightarrow> rat" where
  "scale10 m e = (if 0 \<le> e then m * 10 ^ nat e else m / 10 ^ nat (- e))"

definition strUnsignedDecimalLiteral :: "jsstring \<Rightarrow> jsnum" where
  "strUnsignedDecimalLiteral s =
     (if s = js ''Infinity'' then PosInf
      else
        (let ip = takeWhile isDigit s;
             r1 = dropWhile isDigit s;
             hasDot = (r1 \<noteq> [] \<and> hd r1 = 46);
             fp = (if hasDot then takeWhile isDigit (tl r1) else []);
             r2 = (if hasDot then dropWhile isDigit (tl r1) else r1)
         in if ip = [] \<and> fp = [] then NaN
            else (case exponentPart r2 of
                    None \<Rightarrow> NaN
                  | Some e \<Rightarrow> Fin (scale10 (of_nat (radixValue 10 (ip @ fp))) (e - int (length fp))))))"

fun negate :: "jsnum \<Rightarrow> jsnum" where
  "negate (Fin x) = Fin (- x)"
| "negate PosInf = NegInf"
| "negate NegInf = PosInf"
| "negate NaN = NaN"

text \<open>
  \<open>Number(s)\<close> for a string \<open>s\<close> (ECMA-262, StringToNumber): white space is
  stripped, the empty string is 0, a radix-prefixed integer or a signed decimal
  literal is its value, and every other string is NaN.
\<close>

definition Number :: "jsstring \<Rightarrow> jsnum" where
  "Number s =
     (let t = trim s in
      if t = [] then Fin 0
      else if 2 \<le> length t \<and> hd t = 48 \<and> (t ! 1 = 120 \<or> t ! 1 = 88) then radixLiteral 16 (drop 2 t)
      else if 2 \<le> length t \<and> hd t = 48 \<and> (t ! 1 = 111 \<or> t ! 1 = 79) then radixLiteral 8 (drop 2 t)
      else if 2 \<le> length t \<and> hd t = 48 \<and> (t ! 1 = 98 \<or> t ! 1 = 66) then radixLiteral 2 (drop 2 t)
      else if hd t = 43 then strUnsignedDecimalLiteral (tl t)
      else if hd t = 45 then negate (strUnsignedDecimalLiteral (tl t))
      else strUnsignedDecimalLiteral t)"

section \<open>AgeParser: normalizeAge (src/App.jsx)\<close>

text \<open>
  The pattern of \<open>normalizeAge\<close> is the regular-expression literal
  \<^verbatim>\<open>/(\\d+(\\.\\d+)?)/\<close>. In a literal, \<^verbatim>\<open>\\\<close> is an escaped backslash, so
  the pattern reads: a backslash (code unit 92), one or more letters \<open>d\<close> (100),
  and optionally a backslash, any character but a line terminator, a backslash and one
  or more letters \<open>d\<close>. \<open>ageRegexAt\<close> matches it at the head of a string,
  \<open>ageRegexMatch\<close> is \<open>String.prototype.match\<close>: the leftmost match, its text being
  group 1.
\<close>

definition isLineTerminator :: "nat \<Rightarrow> bool" where
  "isLineTerminator c \<longleftrightarrow> c = 10 \<or> c = 13 \<or> c = 8232 \<or> c = 8233"

definition isD :: "nat \<Rightarrow> bool" where
  "isD c \<longleftrightarrow> c = 100"

definition ageRegexTail :: "jsstring \<Rightarrow> jsstring" where
  "ageRegexTail r =
     (if 4 \<le> length r \<and> r ! 0 = 92 \<and> \<not> isLineTerminator (r ! 1) \<and> r ! 2 = 92 \<and> r ! 3 = 100
      then take 4 r @ takeWhile isD (drop 4 r) else [])"

definition ageRegexAt :: "jsstring \<Rightarrow> jsstring option" where
  "ageRegexAt s =
     (if 2 \<le> length s \<and> s ! 0 = 92 \<and> s ! 1 = 100
      then Some (take 2 s @ takeWhile isD (drop 2 s) @ ageRegexTail (dropWhile isD (drop 2 s)))
      else None)"

fun ageRegexMatch :: "jsstring \<Rightarrow> jsstring option" where
  "ageRegexMatch [] = None"
| "ageRegexMatch (c # cs) =
     (case ageRegexAt (c # cs) of Some m \<Rightarrow> Some m | None \<Rightarrow> ageRegexMatch cs)"

fun normalizeAge :: "jsvalue \<Rightarrow> int option" where
  "normalizeAge JNull = None"
| "normalizeAge JUndefined = None"
| "normalizeAge (JNum (Fin x)) = Some \<lfloor>x\<rfloor>"
| "normalizeAge (JStr v) =
     (let trimmed = trim v in
      if trimmed = [] then None
      else (case ageRegexMatch trimmed of
              None \<Rightarrow> None
            | Some m \<Rightarrow> (case Number m of Fin parsed \<Rightarrow> Some \<lfloor>parsed\<rfloor> | _ \<Rightarrow> None)))"
| "normalizeAge _ = None"

text \<open>Truncation toward zero, the reading of the numeric case that drops the fraction.\<close>

definition truncateTowardZero :: "rat \<Rightarrow> int" where
  "truncateTowardZero x = (if 0 \<le> x then \<lfloor>x\<rfloor> else \<lceil>x\<rceil>)"

section \<open>AgeBandClassifier: AGE_GROUPS and buildCounts\<close>

text \<open>
  The objects of the taxonomy and of the count trees share their first fields, so they
  are one chain of records: a band (\<open>id\<close>, \<open>label\<close>, \<open>range\<close>), a band
  with its \<open>count\<close>, and a counted band with \<open>totalCount\<close> and \<open>feverCount\<close>.
  A top-level group is the group's own fields (\<open>node\<close>) with its \<open>children\<close>.
  The field \<open>id\<close> is \<open>bandId\<close> here.
\<close>

record band =
  bandId :: jsstring
  label :: jsstring
  range :: "int \<times> int"

record countNode = band +
  count :: int

record combinedNode = countNode +
  totalCount :: int
  feverCount :: int

record ('n, 'c) grouped =
  node :: 'n
  children :: 'c

type_synonym ageGroup = "(band, band list option) grouped"
type_synonym countGroup = "(countNode, countNode list) grouped"
type_synonym combinedGroup = "(combinedNode, combinedNode list) grouped"

text \<open>The labels end in the syllable U+C138; the last one is "65", U+C138, " ", U+C774, U+C0C1.\<close>

definition AGE_GROUPS :: "ageGroup list" where
  "AGE_GROUPS =
     [\<lparr>node = \<lparr>bandId = js ''0-6'', label = js ''0-6'' @ [49464], range = (0, 6)\<rparr>,
       children = Some
         [\<lparr>bandId = js ''0'', label = js ''0'' @ [49464], range = (0, 0)\<rparr>,
          \<lparr>bandId = js ''1-6'', label = js ''1-6'' @ [49464], range = (1, 6)\<rparr>]\<rparr>,
      \<lparr>node = \<lparr>bandId = js ''7-18'', label = js ''7-18'' @ [49464], range = (7, 18)\<rparr>,
       children = Some
         [\<lparr>bandId = js ''7-12'', label = js ''7-12'' @ [49464], range = (7, 12)\<rparr>,
          \<lparr>bandId = js ''13-18'', label = js ''13-18'' @ [49464], range = (13, 18)\<rparr>]\<rparr>,
      \<lparr>node = \<lparr>bandId = js ''19-49'', label = js ''19-49'' @ [49464], range = (19, 49)\<rparr>,
       children = None\<rparr>,
      \<lparr>node = \<lparr>bandId = js ''50-64'', label = js ''50-64'' @ [49464], range = (50, 64)\<rparr>,
       children = None\<rparr>,
      \<lparr>node = \<lparr>bandId = js ''65+'', label = js ''65'' @ [49464, 32, 51060, 49345], range = (65, 120)\<rparr>,
       children = None\<rparr>]"

definition zeroCount :: "band \<Rightarrow> countNode" where
  "zeroCount b = \<lparr>bandId = bandId b, label = label b, range = range b, count = 0\<rparr>"

definition initialGroups :: "countGroup list" where
  "initialGroups =
     map (\<lambda>grp. \<lparr>node = zeroCount (node grp),
                      children = map zeroCount (case children grp of None \<Rightarrow> [] | Some cs \<Rightarrow> cs)\<rparr>)
       AGE_GROUPS"

definition inRange :: "int \<Rightarrow> int \<times> int \<Rightarrow> bool" where
  "inRange age r \<longleftrightarrow> fst r \<le> age \<and> age \<le> snd r"

definition countChild :: "int \<Rightarrow> countNode \<Rightarrow> countNode" where
  "countChild age child =
     (if inRange age (range child) then child\<lparr>count := count child + 1\<rparr> else child)"

definition countGroup :: "int \<Rightarrow> countGroup \<Rightarrow> countGroup" where
  "countGroup age grp =
     (if inRange age (range (node grp))
      then \<lparr>node = (node grp)\<lparr>count := count (node grp) + 1\<rparr>,
            children = map (countChild age) (children grp)\<rparr>
      else grp)"

text \<open>
  The ages are the integers that \<open>normalizeAge\<close> returns. The outer \<open>forEach\<close>
  is the fold over the ages, the two inner ones are the maps over the groups and over
  the children of a group.
\<close>

definition buildCounts :: "int list \<Rightarrow> countGroup list" where
  "buildCounts ages = foldl (\<lambda>groups age. map (countGroup age) groups) initialGroups ages"

section \<open>DatasetCombiner: combineCounts and the ratio\<close>

definition combineChild :: "countNode list \<Rightarrow> countNode \<Rightarrow> combinedNode" where
  "combineChild feverChildren child =
     \<lparr>bandId = bandId child, label = label child, range = range child, count = count child,
      totalCount = count child,
      feverCount = (case find (\<lambda>item. bandId item = bandId child) feverChildren of
                      None \<Rightarrow> 0 | Some feverChild \<Rightarrow> count feverChild)\<rparr>"

definition combineGroup :: "countGroup list \<Rightarrow> countGroup \<Rightarrow> combinedGroup" where
  "combineGroup feverCounts grp =
     (let feverGroup = (case find (\<lambda>item. bandId (node item) = bandId (node grp)) feverCounts of
                          None \<Rightarrow> \<lparr>node = \<lparr>bandId = [], label = [], range = (0, 0), count = 0\<rparr>,
                                    children = []\<rparr>
                        | Some item \<Rightarrow> item)
      in \<lparr>node = \<lparr>bandId = bandId (node grp), label = label (node grp),
                   range = range (node grp), count = count (node grp),
                   totalCount = count (node grp),
                   feverCount = count (node feverGroup)\<rparr>,
          children = map (combineChild (children feverGroup)) (children grp)\<rparr>)"

definition combineCounts :: "countGroup list \<Rightarrow> countGroup list \<Rightarrow> combinedGroup list" where
  "combineCounts visitCounts feverCounts = map (combineGroup feverCounts) visitCounts"

text \<open>
  Division and multiplication of numbers give the double nearest to the exact result,
  ties going to the even significand (IEEE 754 binary64). \<open>roundHalfEven\<close> rounds a
  rational to an integer in that way. \<open>binade a\<close> is the largest power of two that is
  not above \<open>a\<close>, for a positive \<open>a\<close>. \<open>roundDouble x\<close> rounds \<open>x\<close> to a multiple
  of the spacing of the doubles near \<open>x\<close>, which is \<open>binade \<bar>x\<bar> / 2 ^ 52\<close> and
  \<open>1 / 2 ^ 1074\<close> below \<open>1 / 2 ^ 1022\<close>; a result of \<open>2 ^ 1024\<close> or more is an
  infinity. Negative zero is not told from zero.
\<close>

definition roundHalfEven :: "rat \<Rightarrow> int" where
  "roundHalfEven n =
     (let k = \<lfloor>n\<rfloor>; d = n - of_int k
      in if d < 1 / 2 then k else if 1 / 2 < d then k + 1 else if even k then k else k + 1)"

function binade :: "rat \<Rightarrow> rat" where
  "binade a =
     (if a \<le> 0 then 1 else if 2 \<le> a then 2 * binade (a / 2)
      else if a < 1 then binade (2 * a) / 2 else 1)"
  by pat_completeness auto
termination
proof (relation "measure (\<lambda>a. if 1 \<le> a then nat \<lfloor>a\<rfloor> else nat \<lfloor>1 / a\<rfloor> + 1)")
  show "wf (measure (\<lambda>a::rat. if 1 \<le> a then nat \<lfloor>a\<rfloor> else nat \<lfloor>1 / a\<rfloor> + 1))" by simp
next
  fix a :: rat
  assume "\<not> a \<le> 0" "2 \<le> a"
  then have "a / 2 \<le> a - 1" by simp
  then have "\<lfloor>a / 2\<rfloor> \<le> \<lfloor>a - 1\<rfloor>" by (rule floor_mono)
  moreover have "1 \<le> \<lfloor>a\<rfloor>" using \<open>2 \<le> a\<close> by (simp add: le_floor_iff)
  ultimately show "(a / 2, a) \<in> measure (\<lambda>a. if 1 \<le> a then nat \<lfloor>a\<rfloor> else nat \<lfloor>1 / a\<rfloor> + 1)"
    using \<open>2 \<le> a\<close> by simp
next
  fix a :: rat
  assume a: "\<not> a \<le> 0" "\<not> 2 \<le> a" "a < 1"
  then have i: "1 < 1 / a" by simp
  then have f1: "1 \<le> \<lfloor>1 / a\<rfloor>" by (simp add: le_floor_iff)
  show "(2 * a, a) \<in> measure (\<lambda>a. if 1 \<le> a then nat \<lfloor>a\<rfloor> else nat \<lfloor>1 / a\<rfloor> + 1)"
  proof (cases "1 \<le> 2 * a")
    case True
    have "\<lfloor>2 * a\<rfloor> = 1" using True a by (simp add: floor_unique)
    then show ?thesis using True a f1 by simp
  next
    case False
    then have "2 \<le> 1 / a" using a by (simp add: field_simps)
    then have "1 / (2 * a) \<le> 1 / a - 1" by (simp add: field_simps)
    then have "\<lfloor>1 / (2 * a)\<rfloor> \<le> \<lfloor>1 / a - 1\<rfloor>" by (rule floor_mono)
    then show ?thesis using False a f1 by simp
  qed
qed

declare binade.simps [simp del]

definition roundDouble :: "rat \<Rightarrow> jsnum" where
  "roundDouble x =
     (if x = 0 then Fin 0
      else
        (let a = \<bar>x\<bar>;
             q = max (binade a) (1 / 2 ^ 1022) / 2 ^ 52;
             r = of_int (roundHalfEven (a / q)) * q
         in if 2 ^ 1024 \<le> r then (if 0 < x then PosInf else NegInf)
            else Fin (if 0 < x then r else - r)))"




section \<open>ColumnSelector: findAgesInWorkbook\<close>

text \<open>
  A workbook is the list of its sheet names and the table of its sheets.
  \<open>XLSX.utils.sheet_to_json\<close> belongs to the spreadsheet library; it is the parameter
  \<open>sheet_to_json\<close>, which gives the rows of a sheet, each row the array of its cells.
  The three objects of the source that carry an \<open>ages\<close> array (the best sheet, a
  parsed file, the upload state) extend one record with that field. The \<open>count\<close>
  of the best sheet is \<open>bestCount\<close>.
\<close>

record 'sheet workbook =
  SheetNames :: "jsstring list"
  Sheets :: "jsstring \<Rightarrow> 'sheet option"

record withAges =
  ages :: "int list"

record best = withAges +
  sheetName :: jsstring
  bestCount :: nat

definition TARGET_COLUMN_INDEX :: nat where
  "TARGET_COLUMN_INDEX = 3"

definition cellAt :: "jsvalue list \<Rightarrow> nat \<Rightarrow> jsvalue" where
  "cellAt row i = (if i < length row then row ! i else JUndefined)"

definition rowAge :: "jsvalue list \<Rightarrow> int list" where
  "rowAge row =
     (case normalizeAge (cellAt row TARGET_COLUMN_INDEX) of
        None \<Rightarrow> []
      | Some age \<Rightarrow> if 0 \<le> age \<and> age \<le> 120 then [age] else [])"

definition sheetAges :: "jsvalue list list \<Rightarrow> int list" where
  "sheetAges rows = foldl (\<lambda>ages row. ages @ rowAge row) [] rows"

definition visitSheet ::
    "('sheet option \<Rightarrow> jsvalue list list) \<Rightarrow> 'sheet workbook \<Rightarrow> best \<Rightarrow> jsstring \<Rightarrow> best" where
  "visitSheet sheet_to_json workbook b name =
     (let ages = sheetAges (sheet_to_json (Sheets workbook name)) in
      if bestCount b < length ages
      then \<lparr>ages = ages, sheetName = name, bestCount = length ages\<rparr>
      else b)"

definition findAgesInWorkbook ::
    "('sheet option \<Rightarrow> jsvalue list list) \<Rightarrow> 'sheet workbook \<Rightarrow> best" where
  "findAgesInWorkbook sheet_to_json workbook =
     foldl (visitSheet sheet_to_json workbook) \<lparr>ages = [], sheetName = [], bestCount = 0\<rparr>
       (SheetNames workbook)"

section \<open>Dates\<close>

text \<open>
  The dates of this program are built from a year, a month and a day and stand at local
  midnight. A date is held as its day number, the \<open>Day(t)\<close> of ECMA-262 taken in local
  time: 0 is 1970-01-01. \<open>DayFromYear\<close>, \<open>MakeDay\<close> and \<open>WeekDay\<close> are the
  functions of ECMA-262; \<open>YearFromTime\<close> is computed from an estimate of the year,
  which is off by one at most.
\<close>

type_synonym jsdate = int

definition DayFromYear :: "int \<Rightarrow> int" where
  "DayFromYear y = 365 * (y - 1970) + (y - 1969) div 4 - (y - 1901) div 100 + (y - 1601) div 400"

definition InLeapYear :: "int \<Rightarrow> bool" where
  "InLeapYear y \<longleftrightarrow> y mod 4 = 0 \<and> (y mod 100 \<noteq> 0 \<or> y mod 400 = 0)"

text \<open>The day within the year on which month \<open>m\<close> (0 to 11) begins.\<close>

definition monthStart :: "bool \<Rightarrow> int \<Rightarrow> int" where
  "monthStart leap m =
     (let l = (if leap then 1 else 0) in
      if m = 0 then 0 else if m = 1 then 31 else if m = 2 then 59 + l
      else if m = 3 then 90 + l else if m = 4 then 120 + l else if m = 5 then 151 + l
      else if m = 6 then 181 + l else if m = 7 then 212 + l else if m = 8 then 243 + l
      else if m = 9 then 273 + l else if m = 10 then 304 + l else 334 + l)"

definition MakeDay :: "int \<Rightarrow> int \<Rightarrow> int \<Rightarrow> int" where
  "MakeDay year month date =
     (let ym = year + month div 12; mn = month mod 12
      in DayFromYear ym + monthStart (InLeapYear ym) mn + date - 1)"

definition YearFromTime :: "jsdate \<Rightarrow> int" where
  "YearFromTime t =
     (let y = 1970 + (400 * t) div 146097
      in if t < DayFromYear y then y - 1 else if DayFromYear (y + 1) \<le> t then y + 1 else y)"

definition DayWithinYear :: "jsdate \<Rightarrow> int" where
  "DayWithinYear t = t - DayFromYear (YearFromTime t)"

definition MonthFromTime :: "jsdate \<Rightarrow> int" where
  "MonthFromTime t =
     (let d = DayWithinYear t; l = (if InLeapYear (YearFromTime t) then 1 else 0) in
      if d < 31 then 0 else if d < 59 + l then 1 else if d < 90 + l then 2
      else if d < 120 + l then 3 else if d < 151 + l then 4 else if d < 181 + l then 5
      else if d < 212 + l then 6 else if d < 243 + l then 7 else if d < 273 + l then 8
      else if d < 304 + l then 9 else if d < 334 + l then 10 else 11)"

definition DateFromTime :: "jsdate \<Rightarrow> int" where
  "DateFromTime t =
     DayWithinYear t - monthStart (InLeapYear (YearFromTime t)) (MonthFromTime t) + 1"

definition WeekDay :: "jsdate \<Rightarrow> int" where
  "WeekDay t = (t + 4) mod 7"

text \<open>
  \<open>new Date(year, month, day)\<close> on three numbers. The arguments are truncated to
  integers, a year from 0 to 99 means 1900 + year, and the result is the invalid date
  (\<open>None\<close>) when an argument is not finite or the day is more than 100 000 000 days from
  1970-01-01.
\<close>

fun newDate :: "jsnum \<Rightarrow> jsnum \<Rightarrow> jsnum \<Rightarrow> jsdate option" where
  "newDate (Fin year) (Fin month) (Fin day) =
     (let y = truncateTowardZero year;
          yr = (if 0 \<le> y \<and> y \<le> 99 then 1900 + y else y);
          t = MakeDay yr (truncateTowardZero month) (truncateTowardZero day)
      in if \<bar>t\<bar> \<le> 100000000 then Some t else None)"
| "newDate _ _ _ = None"

text \<open>
  \<open>date.setDate(d)\<close> on a copy of \<open>date\<close>: the day \<open>d\<close> of the month of \<open>date\<close>,
  where \<open>d\<close> may lie outside the month. The program moves a date by six days at most;
  the range check on the result is left out.
\<close>

definition setDate :: "jsdate \<Rightarrow> int \<Rightarrow> jsdate" where
  "setDate date d = MakeDay (YearFromTime date) (MonthFromTime date) d"

fun jsSub :: "jsnum \<Rightarrow> jsnum \<Rightarrow> jsnum" where
  "jsSub (Fin a) (Fin b) = Fin (a - b)"
| "jsSub NaN _ = NaN"
| "jsSub _ NaN = NaN"
| "jsSub PosInf PosInf = NaN"
| "jsSub NegInf NegInf = NaN"
| "jsSub PosInf _ = PosInf"
| "jsSub NegInf _ = NegInf"
| "jsSub (Fin a) PosInf = NegInf"
| "jsSub (Fin a) NegInf = PosInf"

text \<open>\<open>!x\<close> on a number.\<close>

definition falsy :: "jsnum \<Rightarrow> bool" where
  "falsy x \<longleftrightarrow> x = NaN \<or> x = Fin 0"

text \<open>\<open>s.split(sep)\<close> for a separator of one code unit.\<close>

fun split :: "nat \<Rightarrow> jsstring \<Rightarrow> jsstring list" where
  "split sep [] = [[]]"
| "split sep (c # cs) =
     (if c = sep then [] # split sep cs
      else (case split sep cs of [] \<Rightarrow> [[c]] | p # ps \<Rightarrow> (c # p) # ps))"

text \<open>
  \<open>parseDateString\<close> on a string. Fewer than three parts leave \<open>day\<close> undefined,
  which is falsy; the getters of an invalid date give NaN, which differs from every
  number.
\<close>

definition parseDateString :: "jsstring \<Rightarrow> jsdate option" where
  "parseDateString v =
     (if v = [] then None
      else (case map Number (split 45 v) of
              year # month # day # _ \<Rightarrow>
                if falsy year \<or> falsy month \<or> falsy day then None
                else (case newDate year (jsSub month (Fin 1)) day of
                        None \<Rightarrow> None
                      | Some date \<Rightarrow>
                          if Fin (of_int (YearFromTime date)) \<noteq> year \<or>
                             Fin (of_int (MonthFromTime date)) \<noteq> jsSub month (Fin 1) \<or>
                             Fin (of_int (DateFromTime date)) \<noteq> day
                          then None else Some date)
            | _ \<Rightarrow> None))"

text \<open>Decimal digits of a natural number and of an integer, as \<open>String(n)\<close> writes them.\<close>

fun showNat :: "nat \<Rightarrow> jsstring" where
  "showNat n = (if n < 10 then [48 + n] else showNat (n div 10) @ [48 + n mod 10])"

definition showInt :: "int \<Rightarrow> jsstring" where
  "showInt i = (if i < 0 then 45 # showNat (nat (- i)) else showNat (nat i))"

definition padStart2 :: "jsstring \<Rightarrow> jsstring" where
  "padStart2 s = replicate (2 - length s) 48 @ s"

definition formatDate :: "jsdate \<Rightarrow> jsstring" where
  "formatDate date =
     showInt (YearFromTime date) @ js ''-'' @ padStart2 (showInt (MonthFromTime date + 1)) @
     js ''-'' @ padStart2 (showInt (DateFromTime date))"

section \<open>WeekReconciler: analyzeWeekDates\<close>

definition getWeekStartMonday :: "jsdate \<Rightarrow> jsdate" where
  "getWeekStartMonday date =
     (let day = WeekDay date; diffToMonday = (day + 6) mod 7
      in setDate date (DateFromTime date - diffToMonday))"

definition buildExpectedWeekDates :: "jsdate \<Rightarrow> jsstring list" where
  "buildExpectedWeekDates monday =
     map (\<lambda>offset. formatDate (setDate monday (DateFromTime monday + offset))) [0, 1, 2, 3, 4, 5]"

record weekCheck =
  weekStart :: jsstring
  weekEnd :: jsstring
  missingDays :: "jsstring list"
  outOfRange :: "jsstring list"

text \<open>\<open>Array.from(new Set(xs))\<close>: the first occurrence of every element, in order.\<close>

definition unique :: "'a list \<Rightarrow> 'a list" where
  "unique xs = foldl (\<lambda>seen x. if x \<in> set seen then seen else seen @ [x]) [] xs"

text \<open>
  The dates are sorted by their time, the strings of \<open>outOfRange\<close> by the default
  order of \<open>sort\<close>, which compares strings code unit by code unit. \<open>weekEnd\<close> is built
  with \<open>new Date\<close> from the fields of \<open>weekStart\<close>; an invalid date is formatted as
  "NaN-NaN-NaN".
\<close>

definition analyzeWeekDates :: "jsstring list \<Rightarrow> weekCheck option" where
  "analyzeWeekDates dateStrings =
     (let uniqueDates = unique dateStrings in
      if uniqueDates = [] then None
      else
        (let parsedDates = List.map_filter parseDateString uniqueDates in
         if parsedDates = [] then None
         else
           (let monday = getWeekStartMonday (hd (sort parsedDates));
                expectedDates = buildExpectedWeekDates monday;
                missing = filter (\<lambda>v. v \<notin> set uniqueDates) expectedDates;
                outside = filter (\<lambda>v. v \<notin> set expectedDates) uniqueDates
            in Some \<lparr>weekStart = formatDate monday,
                     weekEnd =
                       (case newDate (Fin (of_int (YearFromTime monday)))
                               (Fin (of_int (MonthFromTime monday)))
                               (Fin (of_int (DateFromTime monday + 5))) of
                          None \<Rightarrow> js ''NaN-NaN-NaN''
                        | Some date \<Rightarrow> formatDate date),
                     missingDays = missing,
                     outOfRange = sort outside\<rparr>)))"

section \<open>FileNameAnalyzer: file names, parsed files and warnings\<close>

text \<open>
  The two suffixes of \<open>handleUploadFiles\<close>, four and five Hangul syllables, and the
  label of the target column, "D" and a syllable.
\<close>

definition visitSuffix :: jsstring where
  "visitSuffix = [52509, 54872, 51088, 49688]"

definition feverSuffix :: jsstring where
  "feverSuffix = [48156, 50676, 54872, 51088, 49688]"

definition TARGET_COLUMN_LABEL :: jsstring where
  "TARGET_COLUMN_LABEL = [68, 50676]"

text \<open>
  \<open>buildFileRegex(suffix)\<close> is the pattern
  \<^verbatim>\<open>^(\d{4}-\d{2}-\d{2})_<suffix>\.(xlsx|xls)$\<close> with the flag \<open>i\<close>, and
  \<open>fileRegexMatch\<close> is \<open>name.match\<close> of it, giving group 1. The suffix is one
  of the two above: it has no character with a meaning in a pattern. Under the flag
  \<open>i\<close> two characters match when their upper-case forms agree; for the characters of
  this pattern (digits, punctuation, Hangul and the letters x, l, s) that holds for the
  character itself and, for a letter, for its other case.
\<close>

definition canonicalize :: "nat \<Rightarrow> nat" where
  "canonicalize c = (if 97 \<le> c \<and> c \<le> 122 then c - 32 else c)"

definition sameIgnoringCase :: "jsstring \<Rightarrow> jsstring \<Rightarrow> bool" where
  "sameIgnoringCase a b \<longleftrightarrow> map canonicalize a = map canonicalize b"

definition isDatePattern :: "jsstring \<Rightarrow> bool" where
  "isDatePattern d \<longleftrightarrow>
     length d = 10 \<and> isDigit (d ! 0) \<and> isDigit (d ! 1) \<and> isDigit (d ! 2) \<and> isDigit (d ! 3) \<and>
     d ! 4 = 45 \<and> isDigit (d ! 5) \<and> isDigit (d ! 6) \<and> d ! 7 = 45 \<and>
     isDigit (d ! 8) \<and> isDigit (d ! 9)"

definition fileRegexMatch :: "jsstring \<Rightarrow> jsstring \<Rightarrow> jsstring option" where
  "fileRegexMatch suffix name =
     (let d = take 10 name;
          r = drop 10 name;
          ext = drop (1 + length suffix) r
      in if isDatePattern d \<and> r \<noteq> [] \<and> hd r = 95 \<and>
            length suffix \<le> length (tl r) \<and>
            sameIgnoringCase (take (length suffix) (tl r)) suffix \<and>
            (sameIgnoringCase ext (js ''.xlsx'') \<or> sameIgnoringCase ext (js ''.xls''))
         then Some d else None)"

text \<open>
  The classification of a file name in \<open>handleUploadFiles\<close>: the extracted date string
  and the name issue.
\<close>

definition classifyName :: "jsstring \<Rightarrow> jsstring \<Rightarrow> jsstring option \<times> jsstring" where
  "classifyName suffix name =
     (case fileRegexMatch suffix name of
        Some d \<Rightarrow> (Some d, if parseDateString d = None then js ''date'' else [])
      | None \<Rightarrow> (None, js ''pattern''))"

record parsedFile = withAges +
  name :: jsstring
  dateString :: "jsstring option"
  nameIssue :: jsstring
  error :: jsstring
  source :: jsstring

text \<open>The two error texts: the file could not be read, and no age was found in column D.\<close>

definition readError :: jsstring where
  "readError =
     [50641, 49472, 32, 54028, 51068, 51012, 32, 51069, 51648, 32, 47803, 54664, 49845, 45768,
      45796, 46]"

definition noAgeError :: jsstring where
  "noAgeError =
     [68, 50676, 50640, 49436, 32, 48, 126, 49, 50, 48, 32, 49324, 51060, 32, 49707, 51088, 32,
      45208, 51060, 32, 45936, 51060, 53552, 47484, 32, 52286, 51648, 32, 47803, 54664, 49845,
      45768, 45796, 46]"

text \<open>
  An uploaded file is its name and the workbook that reading it gives, \<open>None\<close> when
  \<open>file.arrayBuffer\<close> or \<open>XLSX.read\<close> throws.
\<close>

definition parseUploadedFile ::
    "('sheet option \<Rightarrow> jsvalue list list) \<Rightarrow> jsstring \<Rightarrow> jsstring \<times> 'sheet workbook option \<Rightarrow>
     parsedFile" where
  "parseUploadedFile sheet_to_json suffix file =
     (let (d, issue) = classifyName suffix (fst file) in
      case snd file of
        None \<Rightarrow>
          \<lparr>ages = [], name = fst file, dateString = d, nameIssue = issue, error = readError,
           source = []\<rparr>
      | Some workbook \<Rightarrow>
          (let result = findAgesInWorkbook sheet_to_json workbook in
           \<lparr>ages = ages result, name = fst file, dateString = d, nameIssue = issue,
            error = (if ages result = [] then noAgeError else []),
            source = (if sheetName result \<noteq> [] then sheetName result @ js '' / '' @ TARGET_COLUMN_LABEL
                      else [])\<rparr>))"

text \<open>\<open>xs.join(sep)\<close>, and a \<open>Map\<close> as the list of its entries in insertion order.\<close>

fun join :: "jsstring \<Rightarrow> jsstring list \<Rightarrow> jsstring" where
  "join sep [] = []"
| "join sep [x] = x"
| "join sep (x # y # ys) = x @ sep @ join sep (y # ys)"

definition mapGet :: "('k \<times> 'v) list \<Rightarrow> 'k \<Rightarrow> 'v option" where
  "mapGet m k = map_of m k"

definition mapSet :: "('k \<times> 'v) list \<Rightarrow> 'k \<Rightarrow> 'v \<Rightarrow> ('k \<times> 'v) list" where
  "mapSet m k v =
     (if k \<in> fst ` set m then map (\<lambda>e. if fst e = k then (k, v) else e) m else m @ [(k, v)])"

definition dateCounts :: "parsedFile list \<Rightarrow> (jsstring \<times> nat) list" where
  "dateCounts files =
     foldl (\<lambda>acc file.
              case dateString file of
                None \<Rightarrow> acc
              | Some d \<Rightarrow>
                  if d = [] \<or> nameIssue file \<noteq> [] then acc
                  else mapSet acc d ((case mapGet acc d of None \<Rightarrow> 0 | Some c \<Rightarrow> c) + 1))
       [] files"

definition duplicateDates :: "parsedFile list \<Rightarrow> (jsstring \<times> nat) list" where
  "duplicateDates files = filter (\<lambda>entry. 1 < snd entry) (dateCounts files)"

text \<open>The opening words of the six warnings, each ending in a colon and a space.\<close>

definition patternWarning :: jsstring where
  "patternWarning =
     [54028, 51068, 47749, 32, 44508, 52825, 44284, 32, 45796, 47480, 32, 54028, 51068, 58, 32]"

definition dateWarning :: jsstring where
  "dateWarning =
     [45216, 51676, 32, 54805, 49885, 51060, 32, 50732, 48148, 47476, 51648, 32, 50506, 51008, 32,
      54028, 51068, 58, 32]"

definition readWarning :: jsstring where
  "readWarning =
     [51069, 44592, 32, 50724, 47448, 32, 46608, 45716, 32, 45208, 51060, 32, 45936, 51060, 53552,
      32, 50630, 51020, 58, 32]"

definition duplicateWarning :: jsstring where
  "duplicateWarning =
     [44057, 51008, 32, 45216, 51676, 32, 54028, 51068, 51060, 32, 50668, 47084, 32, 44060, 32,
      51080, 49845, 45768, 45796, 58, 32]"

definition outOfRangeWarning :: jsstring where
  "outOfRangeWarning =
     [45796, 47480, 32, 51452, 51032, 32, 54028, 51068, 51060, 32, 54252, 54632, 46104, 50632,
      49845, 45768, 45796, 58, 32]"

definition missingWarning :: jsstring where
  "missingWarning = [45572, 46973, 46108, 32, 50836, 51068, 32, 54028, 51068, 58, 32]"

text \<open>One duplicated date in the warning: the date, " (", the count, a syllable and ")".\<close>

definition duplicateEntry :: "jsstring \<times> nat \<Rightarrow> jsstring" where
  "duplicateEntry entry = fst entry @ js '' ('' @ showNat (snd entry) @ [44060, 41]"

definition buildUploadWarnings :: "parsedFile list \<Rightarrow> weekCheck option \<Rightarrow> jsstring list" where
  "buildUploadWarnings files check =
     (let invalidNameFiles = filter (\<lambda>file. nameIssue file = js ''pattern'') files;
          invalidDateFiles = filter (\<lambda>file. nameIssue file = js ''date'') files;
          readErrors = filter (\<lambda>file. error file \<noteq> []) files;
          dups = duplicateDates files
      in (if invalidNameFiles \<noteq> []
          then [patternWarning @ join (js '', '') (map name invalidNameFiles)] else []) @
         (if invalidDateFiles \<noteq> []
          then [dateWarning @ join (js '', '') (map name invalidDateFiles)] else []) @
         (if readErrors \<noteq> []
          then [readWarning @ join (js '', '') (map name readErrors)] else []) @
         (if dups \<noteq> []
          then [duplicateWarning @ join (js '', '') (map duplicateEntry dups)] else []) @
         (case check of
            None \<Rightarrow> []
          | Some wc \<Rightarrow>
              (if outOfRange wc \<noteq> []
               then [outOfRangeWarning @ join (js '', '') (outOfRange wc)] else []) @
              (if missingDays wc \<noteq> []
               then [missingWarning @ join (js '', '') (missingDays wc)] else [])))"

text \<open>
  What \<open>handleUploadFiles\<close> hands to the setter, \<open>None\<close> when the file list is empty
  and the setter is not called. The field \<open>files\<close>, the parsed files in display
  order, is left out: its order comes from \<open>localeCompare\<close>.
\<close>

record uploadState = withAges +
  warnings :: "jsstring list"
  weekCheckOf :: "weekCheck option"

definition handleUploadFiles ::
    "('sheet option \<Rightarrow> jsvalue list list) \<Rightarrow> (jsstring \<times> 'sheet workbook option) list \<Rightarrow> jsstring \<Rightarrow>
     uploadState option" where
  "handleUploadFiles sheet_to_json files type =
     (if files = [] then None
      else
        (let suffix = (if type = js ''visit'' then visitSuffix else feverSuffix);
             parsedFiles = map (parseUploadedFile sheet_to_json suffix) files;
             validDates =
               List.map_filter
                 (\<lambda>file. case dateString file of
                           None \<Rightarrow> None
                         | Some d \<Rightarrow> if d \<noteq> [] \<and> nameIssue file \<noteq> js ''pattern'' then Some d else None)
                 parsedFiles;
             check = analyzeWeekDates validDates
         in Some \<lparr>ages = concat (map ages parsedFiles),
                  warnings = buildUploadWarnings parsedFiles check,
                  weekCheckOf = check\<rparr>))"

section \<open>Notions used in the statements\<close>

text \<open>\<open>hits r xs\<close> is the number of ages of \<open>xs\<close> within the closed range \<open>r\<close>.\<close>

definition hits :: "int \<times> int \<Rightarrow> int list \<Rightarrow> int" where
  "hits r xs = int (length (filter (\<lambda>a. inRange a r) xs))"

text \<open>A group after the ages \<open>xs\<close> have been counted into it.\<close>

definition counted :: "int list \<Rightarrow> countGroup \<Rightarrow> countGroup" where
  "counted xs g =
     \<lparr>node = (node g)\<lparr>count := count (node g) + hits (range (node g)) xs\<rparr>,
      children = map (\<lambda>c. c\<lparr>count := count c +
                   int (length (filter (\<lambda>a. inRange a (range (node g)) \<and> inRange a (range c)) xs))\<rparr>)
                   (children g)\<rparr>"

text \<open>The valid ages of the sheet called \<open>n\<close>: what the scan of that sheet collects.\<close>

definition validAges :: "('sheet option \<Rightarrow> jsvalue list list) \<Rightarrow> 'sheet workbook \<Rightarrow> jsstring \<Rightarrow> int list" where
  "validAges sheet_to_json workbook n = sheetAges (sheet_to_json (Sheets workbook n))"

text \<open>
  The state of the scan after the sheets \<open>names\<close>: the best sheet so far is the first
  of the sheets with the longest list of valid ages, or the initial object when no sheet
  had a valid age.
\<close>

definition bestOf :: "('sheet option \<Rightarrow> jsvalue list list) \<Rightarrow> 'sheet workbook \<Rightarrow> jsstring list \<Rightarrow> best \<Rightarrow> bool" where
  "bestOf s2j wb names b \<longleftrightarrow>
     bestCount b = length (ages b) \<and>
     (if \<forall>n\<in>set names. validAges s2j wb n = []
      then b = \<lparr>ages = [], sheetName = [], bestCount = 0\<rparr>
      else \<exists>i<length names.
             sheetName b = names ! i \<and> ages b = validAges s2j wb (names ! i) \<and>
             (\<forall>j<length names. length (validAges s2j wb (names ! j)) \<le> length (ages b)) \<and>
             (\<forall>j<i. length (validAges s2j wb (names ! j)) < length (ages b)))"

text \<open>A workbook of three sheets for the examples, its sheets held as their rows.\<close>

definition rowsOf :: "jsvalue list list option \<Rightarrow> jsvalue list list" where
  "rowsOf sheet = (case sheet of None \<Rightarrow> [] | Some rows \<Rightarrow> rows)"

definition ageRows :: "rat list \<Rightarrow> jsvalue list list" where
  "ageRows xs = map (\<lambda>x. [JStr (js ''name''), JNull, JBool True, JNum (Fin x)]) xs"

definition twoSheets :: "(jsvalue list list) workbook" where
  "twoSheets =
     \<lparr>SheetNames = [js ''A'', js ''B'', js ''C''],
      Sheets = (\<lambda>n. if n = js ''A'' then Some ([JStr (js ''age'')] # ageRows [3, 200])
                     else if n = js ''B'' then Some (ageRows [7, 69 / 10, - 1, 41])
                     else if n = js ''C'' then Some (ageRows [1, 2, 3])
                     else None)\<rparr>"

text \<open>
  The shape \<open>YYYY-MM-DD_<suffix>.<xlsx|xls>\<close> of a file name, in the words of the
  convention: the date part \<open>d\<close>, an underscore, the suffix, a dot and one of the two
  extensions, letters in either case.
\<close>

definition matchesFileName :: "jsstring \<Rightarrow> jsstring \<Rightarrow> jsstring \<Rightarrow> bool" where
  "matchesFileName suffix nm d \<longleftrightarrow>
     (\<exists>sfx ext. nm = d @ js ''_'' @ sfx @ js ''.'' @ ext \<and> isDatePattern d \<and>
        sameIgnoringCase sfx suffix \<and>
        (sameIgnoringCase ext (js ''xlsx'') \<or> sameIgnoringCase ext (js ''xls'')))"

text \<open>
  The number of files without a name issue whose extracted date string is \<open>d\<close>; an
  extracted date string is not empty.
\<close>

definition sameDateCount :: "parsedFile list \<Rightarrow> jsstring \<Rightarrow> nat" where
  "sameDateCount files d =
     length (filter (\<lambda>file. d \<noteq> [] \<and> dateString file = Some d \<and> nameIssue file = []) files)"

text \<open>The files of a batch as \<open>handleUploadFiles\<close> parses them, and the ages read from one file.\<close>

definition parsedFiles ::
    "('sheet option \<Rightarrow> jsvalue list list) \<Rightarrow> (jsstring \<times> 'sheet workbook option) list \<Rightarrow> jsstring \<Rightarrow>
     parsedFile list" where
  "parsedFiles sheet_to_json files type =
     map (parseUploadedFile sheet_to_json (if type = js ''visit'' then visitSuffix else feverSuffix)) files"

definition uploadedAges ::
    "('sheet option \<Rightarrow> jsvalue list list) \<Rightarrow> jsstring \<times> 'sheet workbook option \<Rightarrow> int list" where
  "uploadedAges sheet_to_json file =
     (case snd file of None \<Rightarrow> [] | Some workbook \<Rightarrow> ages (findAgesInWorkbook sheet_to_json workbook))"

text \<open>
  A batch for the examples: two visit files of 12 June 2024, each with the workbook of
  three sheets, and a file that has neither the name nor the content of a workbook.
\<close>

definition batch :: "(jsstring \<times> (jsvalue list list) workbook option) list" where
  "batch =
     [(js ''2024-06-12_'' @ visitSuffix @ js ''.xlsx'', Some twoSheets),
      (js ''2024-06-12_'' @ visitSuffix @ js ''.xls'', Some twoSheets),
      (js ''notes.txt'', None)]"

section \<open>Properties of normalizeAge\<close>

lemma js_simps [simp]: "js [] = []" "js (c # cs) = of_char c # js cs"
  by (simp_all add: js_def)

lemma ageRegexAt_head: "ageRegexAt s = Some m \<Longrightarrow> m \<noteq> [] \<and> hd m = 92"
  by (cases s) (auto simp: ageRegexAt_def split: if_splits)

lemma ageRegexMatch_head: "ageRegexMatch s = Some m \<Longrightarrow> m \<noteq> [] \<and> hd m = 92"
  by (induction s) (auto split: option.splits dest: ageRegexAt_head)

lemma ageRegexMatch_no_backslash: "92 \<notin> set s \<Longrightarrow> ageRegexMatch s = None"
  by (induction s) (auto simp: ageRegexAt_def)

lemma trim_keeps_head:
  assumes "m \<noteq> []" "\<not> isWhiteSpace (hd m)"
  shows "trim m \<noteq> [] \<and> hd (trim m) = hd m"
proof -
  obtain x xs where m: "m = x # xs" using assms(1) by (cases m) auto
  have d: "dropWhile isWhiteSpace m = m" using assms(2) m by simp
  have "\<exists>ys. dropWhile isWhiteSpace (rev xs @ [x]) = ys @ [x]"
    using assms(2) m by (simp add: dropWhile_append)
  then obtain ys where "dropWhile isWhiteSpace (rev m) = ys @ [x]" using m by auto
  then show ?thesis using d m by (simp add: trim_def)
qed

lemma Number_backslash: "m \<noteq> [] \<Longrightarrow> hd m = 92 \<Longrightarrow> Number m = NaN"
proof -
  assume a: "m \<noteq> []" "hd m = 92"
  have w: "\<not> isWhiteSpace (hd m)" using a by (simp add: isWhiteSpace_def)
  define t where "t = trim m"
  have t: "t \<noteq> []" "hd t = 92" using trim_keeps_head[OF a(1) w] a(2) by (simp_all add: t_def)
  then obtain r where r: "t = 92 # r" by (cases t) auto
  have "strUnsignedDecimalLiteral t = NaN"
    by (simp add: strUnsignedDecimalLiteral_def r isDigit_def Let_def)
  then show ?thesis using t unfolding Number_def t_def[symmetric] by (simp add: Let_def)
qed

lemma normalizeAge_string: "normalizeAge (JStr s) = None"
  by (auto simp: Let_def Number_backslash split: option.splits jsnum.splits dest!: ageRegexMatch_head)

text \<open>
  Claim C1. On a string holding a decimal number, \<open>normalizeAge\<close> should return the
  floor of the first such number. The pattern of src/App.jsx asks for a backslash
  where a digit was meant, so the string "12" has no match and the result is null.
\<close>

theorem normalizeAge_digits: "normalizeAge (JStr (js ''12'')) = None"
  by (simp add: trim_def isWhiteSpace_def ageRegexAt_def)

text \<open>
  Claim C2, as stated: a finite number is truncated toward zero. At -1.5 the code
  returns -2, the floor, and truncation toward zero is -1.
\<close>

theorem normalizeAge_truncation_counterexample:
  "normalizeAge (JNum (Fin (- 3 / 2))) \<noteq> Some (truncateTowardZero (- 3 / 2))"
proof -
  have "\<lfloor>- ((3::rat) / 2)\<rfloor> = - 2" by (simp add: floor_unique)
  moreover have "\<lceil>- ((3::rat) / 2)\<rceil> = - 1" by (simp add: ceiling_unique)
  ultimately show ?thesis by (simp add: truncateTowardZero_def)
qed

text \<open>
  Claim C2, amended: \<open>normalizeAge\<close> returns null on NaN and on the infinities and
  the floor of every finite number; on a number that is not negative the floor is the
  truncation toward zero, and 6.9 gives 6.
\<close>

theorem normalizeAge_number:
  "normalizeAge (JNum NaN) = None \<and> normalizeAge (JNum PosInf) = None \<and>
   normalizeAge (JNum NegInf) = None \<and> normalizeAge (JNum (Fin x)) = Some \<lfloor>x\<rfloor> \<and>
   (0 \<le> x \<longrightarrow> normalizeAge (JNum (Fin x)) = Some (truncateTowardZero x)) \<and>
   normalizeAge (JNum (Fin (69 / 10))) = Some 6"
  by (simp add: truncateTowardZero_def floor_unique)

text \<open>The amended claim C2 at 6.9.\<close>

theorem normalizeAge_number_witness:
  "(0::rat) \<le> 69 / 10 \<and> normalizeAge (JNum (Fin (69 / 10))) = Some (truncateTowardZero (69 / 10)) \<and>
   truncateTowardZero (69 / 10) = 6"
  using normalizeAge_number [of "69 / 10"] by (simp add: truncateTowardZero_def floor_unique)

section \<open>Properties of buildCounts\<close>

lemma hits_Nil: "hits r [] = 0"
  by (simp add: hits_def)

lemma hits_Cons: "hits r (a # xs) = (if inRange a r then 1 else 0) + hits r xs"
  by (simp add: hits_def)

lemma hits_nonneg: "0 \<le> hits r xs"
  by (simp add: hits_def)

lemma hits_split: "l \<le> m \<Longrightarrow> m < h \<Longrightarrow> hits (l, h) xs = hits (l, m) xs + hits (m + 1, h) xs"
  by (induction xs) (auto simp: hits_Nil hits_Cons inRange_def)

lemma hits_inner:
  "fst p \<le> fst c \<Longrightarrow> snd c \<le> snd p \<Longrightarrow>
   int (length (filter (\<lambda>a. inRange a p \<and> inRange a c) xs)) = hits c xs"
proof -
  assume "fst p \<le> fst c" "snd c \<le> snd p"
  then have "(\<lambda>a. inRange a p \<and> inRange a c) = (\<lambda>a. inRange a c)"
    by (auto simp: inRange_def fun_eq_iff)
  then show ?thesis by (simp add: hits_def)
qed

lemma foldl_map_groups:
  "foldl (\<lambda>groups age. map (countGroup age) groups) gs xs =
   map (\<lambda>g. foldl (\<lambda>g a. countGroup a g) g xs) gs"
  by (induction xs arbitrary: gs) (simp_all add: comp_def)

lemma foldl_countGroup: "foldl (\<lambda>g a. countGroup a g) g xs = counted xs g"
proof (induction xs arbitrary: g)
  case Nil
  show ?case by (simp add: counted_def hits_def)
next
  case (Cons a as)
  show ?case
    by (simp add: Cons.IH) (simp add: counted_def countGroup_def countChild_def hits_def comp_def)
qed

lemma buildCounts_counted: "buildCounts xs = map (counted xs) initialGroups"
  by (simp add: buildCounts_def foldl_map_groups foldl_countGroup)

lemma buildCounts_explicit:
  "buildCounts xs =
     [\<lparr>node = \<lparr>bandId = js ''0-6'', label = js ''0-6'' @ [49464], range = (0, 6),
               count = hits (0, 6) xs\<rparr>,
       children =
         [\<lparr>bandId = js ''0'', label = js ''0'' @ [49464], range = (0, 0), count = hits (0, 0) xs\<rparr>,
          \<lparr>bandId = js ''1-6'', label = js ''1-6'' @ [49464], range = (1, 6), count = hits (1, 6) xs\<rparr>]\<rparr>,
      \<lparr>node = \<lparr>bandId = js ''7-18'', label = js ''7-18'' @ [49464], range = (7, 18),
               count = hits (7, 18) xs\<rparr>,
       children =
         [\<lparr>bandId = js ''7-12'', label = js ''7-12'' @ [49464], range = (7, 12), count = hits (7, 12) xs\<rparr>,
          \<lparr>bandId = js ''13-18'', label = js ''13-18'' @ [49464], range = (13, 18),
            count = hits (13, 18) xs\<rparr>]\<rparr>,
      \<lparr>node = \<lparr>bandId = js ''19-49'', label = js ''19-49'' @ [49464], range = (19, 49),
               count = hits (19, 49) xs\<rparr>, children = []\<rparr>,
      \<lparr>node = \<lparr>bandId = js ''50-64'', label = js ''50-64'' @ [49464], range = (50, 64),
               count = hits (50, 64) xs\<rparr>, children = []\<rparr>,
      \<lparr>node = \<lparr>bandId = js ''65+'', label = js ''65'' @ [49464, 32, 51060, 49345], range = (65, 120),
               count = hits (65, 120) xs\<rparr>, children = []\<rparr>]"
  unfolding buildCounts_counted initialGroups_def AGE_GROUPS_def
  by (simp add: counted_def zeroCount_def hits_inner del: js_simps)

lemma hits_total:
  "\<forall>a\<in>set xs. 0 \<le> a \<and> a \<le> 120 \<Longrightarrow>
   hits (0, 6) xs + hits (7, 18) xs + hits (19, 49) xs + hits (50, 64) xs + hits (65, 120) xs =
   int (length xs)"
  by (induction xs) (auto simp: hits_Nil hits_Cons inRange_def)

text \<open>
  Claim C3. When every age is an integer from 0 to 120, the five top-level counts add
  up to the number of ages; every count of the tree is the number of ages within the
  range of its band; every age lies in the range of exactly one top-level band and of
  at most one child of any group.
\<close>

theorem buildCounts_one_band:
  assumes "\<forall>a\<in>set xs. 0 \<le> a \<and> a \<le> 120"
  shows "sum_list (map (\<lambda>g. count (node g)) (buildCounts xs)) = int (length xs) \<and>
         (\<forall>g\<in>set (buildCounts xs). count (node g) = hits (range (node g)) xs \<and>
            (\<forall>c\<in>set (children g). count c = hits (range c) xs)) \<and>
         (\<forall>a\<in>set xs.
            length (filter (\<lambda>g. inRange a (range (node g))) (buildCounts xs)) = 1 \<and>
            (\<forall>g\<in>set (buildCounts xs). length (filter (\<lambda>c. inRange a (range c)) (children g)) \<le> 1))"
proof (intro conjI ballI)
  show "sum_list (map (\<lambda>g. count (node g)) (buildCounts xs)) = int (length xs)"
    using hits_total[OF assms] by (simp add: buildCounts_explicit del: js_simps)
next
  fix g assume "g \<in> set (buildCounts xs)"
  then show "count (node g) = hits (range (node g)) xs"
    by (auto simp add: buildCounts_explicit simp del: js_simps)
next
  fix g c assume "g \<in> set (buildCounts xs)" "c \<in> set (children g)"
  then show "count c = hits (range c) xs"
    by (auto simp add: buildCounts_explicit simp del: js_simps)
next
  fix a assume "a \<in> set xs"
  then have "0 \<le> a \<and> a \<le> 120" using assms by blast
  then show "length (filter (\<lambda>g. inRange a (range (node g))) (buildCounts xs)) = 1"
    by (simp add: buildCounts_explicit inRange_def del: js_simps)
next
  fix a g assume "g \<in> set (buildCounts xs)"
  then show "length (filter (\<lambda>c. inRange a (range c)) (children g)) \<le> 1"
    by (auto simp add: buildCounts_explicit inRange_def simp del: js_simps)
qed

text \<open>Claim C3 on the ages 0, 3, 10, 20 and 70.\<close>

theorem buildCounts_one_band_witness:
  "sum_list (map (\<lambda>g. count (node g)) (buildCounts [0, 3, 10, 20, 70])) = 5 \<and>
   map (\<lambda>g. count (node g)) (buildCounts [0, 3, 10, 20, 70]) = [2, 1, 1, 0, 1]"
  using buildCounts_one_band [of "[0, 3, 10, 20, 70]"]
  by (simp add: buildCounts_explicit hits_def inRange_def del: js_simps)

text \<open>
  Claim C10. For every list of ages, every count of the tree is non-negative, the count
  of a group that has children is the sum of the counts of its children, and the groups
  that have children are the bands 0-6 and 7-18.
\<close>

theorem buildCounts_children_sum:
  "(\<forall>g\<in>set (buildCounts xs).
      0 \<le> count (node g) \<and> (\<forall>c\<in>set (children g). 0 \<le> count c) \<and>
      (children g \<noteq> [] \<longrightarrow> count (node g) = sum_list (map count (children g)))) \<and>
   map (\<lambda>g. bandId (node g)) (filter (\<lambda>g. children g \<noteq> []) (buildCounts xs)) =
     [js ''0-6'', js ''7-18'']"
  using hits_split[of 0 0 6 xs] hits_split[of 7 12 18 xs]
  by (auto simp add: buildCounts_explicit hits_nonneg simp del: js_simps)

text \<open>Claim C10 on the ages 0, 3, 10, 20 and 70.\<close>

theorem buildCounts_children_sum_witness:
  "map (\<lambda>g. (count (node g), map count (children g))) (buildCounts [0, 3, 10, 20, 70]) =
     [(2, [1, 1]), (1, [1, 0]), (1, []), (0, []), (1, [])]"
  using buildCounts_children_sum [of "[0, 3, 10, 20, 70]"]
  by (simp add: buildCounts_explicit hits_def inRange_def del: js_simps)

section \<open>Properties of combineCounts and of the ratio\<close>

lemma combineChild_fields:
  "bandId (combineChild F c) = bandId c \<and> label (combineChild F c) = label c \<and>
   totalCount (combineChild F c) = count c \<and> feverCount (combineChild [] c) = 0"
  by (simp add: combineChild_def)

lemma combineGroup_fields:
  "bandId (node (combineGroup F g)) = bandId (node g) \<and>
   label (node (combineGroup F g)) = label (node g) \<and>
   totalCount (node (combineGroup F g)) = count (node g) \<and>
   feverCount (node (combineGroup [] g)) = 0 \<and>
   children (combineGroup [] g) = map (combineChild []) (children g) \<and>
   length (children (combineGroup F g)) = length (children g)"
  by (simp add: combineGroup_def Let_def)

lemma combineGroup_children:
  "list_all2 (\<lambda>rc tc. bandId rc = bandId tc \<and> label rc = label tc \<and> totalCount rc = count tc)
     (children (combineGroup F g)) (children g)"
  by (simp add: combineGroup_def Let_def list_all2_map1 combineChild_fields list_all2_same)

text \<open>
  Claim C5. Combined with the empty fever tree, the tree of \<open>buildCounts\<close> gives one
  node for each of its nodes, in its order and with its ids and labels, every
  \<open>feverCount\<close> 0 and every \<open>totalCount\<close> the count of the node. For every visit tree
  and every fever tree the result has one node for each node of the visit tree, with its
  id, label and count, and one child for each of its children.
\<close>

theorem combineCounts_shape:
  "list_all2
     (\<lambda>r t. bandId (node r) = bandId (node t) \<and> label (node r) = label (node t) \<and>
            totalCount (node r) = count (node t) \<and> feverCount (node r) = 0 \<and>
            list_all2 (\<lambda>rc tc. bandId rc = bandId tc \<and> label rc = label tc \<and>
                                totalCount rc = count tc \<and> feverCount rc = 0)
              (children r) (children t))
     (combineCounts (buildCounts xs) []) (buildCounts xs) \<and>
   list_all2
     (\<lambda>r t. bandId (node r) = bandId (node t) \<and> label (node r) = label (node t) \<and>
            totalCount (node r) = count (node t) \<and>
            list_all2 (\<lambda>rc tc. bandId rc = bandId tc \<and> label rc = label tc \<and> totalCount rc = count tc)
              (children r) (children t))
     (combineCounts T F) T"
  by (simp add: combineCounts_def list_all2_map1 list_all2_same combineGroup_fields
      combineGroup_children combineChild_fields)

text \<open>Claim C5 on the tree of the ages 0, 3, 10, 20 and 70.\<close>

theorem combineCounts_shape_witness:
  "map (\<lambda>r. (bandId (node r), totalCount (node r), feverCount (node r),
             map (\<lambda>c. (bandId c, totalCount c, feverCount c)) (children r)))
     (combineCounts (buildCounts [0, 3, 10, 20, 70]) []) =
   [(js ''0-6'', 2, 0, [(js ''0'', 1, 0), (js ''1-6'', 1, 0)]),
    (js ''7-18'', 1, 0, [(js ''7-12'', 1, 0), (js ''13-18'', 0, 0)]),
    (js ''19-49'', 1, 0, []), (js ''50-64'', 0, 0, []), (js ''65+'', 1, 0, [])]"
  using combineCounts_shape [of "[0, 3, 10, 20, 70]" "[]" "[]"]
  by (simp add: combineCounts_def combineGroup_def combineChild_def buildCounts_explicit hits_def
      inRange_def del: js_simps)

lemma binade_pos: "0 < binade a"
proof (induction a rule: binade.induct)
  case (1 a)
  then show ?case by (subst binade.simps) auto
qed

lemma binade_bounds: "0 < a \<Longrightarrow> binade a \<le> a \<and> a < 2 * binade a"
proof (induction a rule: binade.induct)
  case (1 a)
  show ?case
  proof (cases "2 \<le> a")
    case True
    then have "binade (a / 2) \<le> a / 2 \<and> a / 2 < 2 * binade (a / 2)" using 1 by simp
    moreover have "binade a = 2 * binade (a / 2)" using True by (subst binade.simps) simp
    ultimately show ?thesis by simp
  next
    case False
    show ?thesis
    proof (cases "a < 1")
      case True
      then have "binade (2 * a) \<le> 2 * a \<and> 2 * a < 2 * binade (2 * a)" using 1 False by simp
      moreover have "binade a = binade (2 * a) / 2"
        using True False 1(3) by (subst binade.simps) simp
      ultimately show ?thesis by simp
    next
      case F: False
      then have "binade a = 1" using False 1(3) by (subst binade.simps) simp
      then show ?thesis using F False by simp
    qed
  qed
qed






lemma roundDouble_PosInf: "0 \<le> x \<Longrightarrow> roundDouble x \<noteq> NegInf"
  by (simp add: roundDouble_def Let_def)


text \<open>
  The significand of a rounded value has 53 bits at most: \<open>roundDouble\<close> rounds
  \<open>\<bar>x\<bar>\<close> divided by the spacing, which is below \<open>2 ^ 53\<close>.
\<close>

lemma roundDouble_significand:
  assumes "0 < a"
  shows "a / (max (binade a) (1 / 2 ^ 1022) / 2 ^ 52) < 2 ^ 53"
proof -
  define b where "b = max (binade a) (1 / 2 ^ 1022)"
  have b: "0 < b" "binade a \<le> b" using binade_pos[of a] by (simp_all add: b_def)
  have "a < 2 * b" using binade_bounds[OF assms] b(2) by linarith
  then have "a * 2 ^ 52 < 2 * b * 2 ^ 52" by simp
  then have "a * 2 ^ 52 / b < 2 * 2 ^ 52" using b(1) by (simp add: pos_divide_less_eq mult.commute mult.left_commute)
  then show ?thesis by (simp add: b_def)
qed





















section \<open>Properties of findAgesInWorkbook\<close>

lemma sheetAges_append: "foldl (\<lambda>ages row. ages @ rowAge row) acc rows = acc @ concat (map rowAge rows)"
  by (induction rows arbitrary: acc) simp_all

lemma sheetAges_concat: "sheetAges rows = concat (map rowAge rows)"
  by (simp add: sheetAges_def sheetAges_append)

lemma sheetAges_valid: "a \<in> set (sheetAges rows) \<Longrightarrow> 0 \<le> a \<and> a \<le> 120"
  by (auto simp: sheetAges_concat rowAge_def split: option.splits if_splits)

lemma bestOf_step:
  assumes "bestOf s2j wb names b"
  shows "bestOf s2j wb (names @ [n]) (visitSheet s2j wb b n)"
proof (cases "bestCount b < length (validAges s2j wb n)")
  case True
  then have v: "visitSheet s2j wb b n =
      \<lparr>ages = validAges s2j wb n, sheetName = n, bestCount = length (validAges s2j wb n)\<rparr>"
    by (simp add: visitSheet_def validAges_def Let_def)
  have ne: "validAges s2j wb n \<noteq> []" using True by auto
  have old: "\<forall>j<length names. length (validAges s2j wb (names ! j)) < length (validAges s2j wb n)"
    using assms True unfolding bestOf_def
    by (auto split: if_splits)
  show ?thesis
    unfolding bestOf_def v using ne old
    by (auto simp: nth_append less_Suc_eq intro!: exI[of _ "length names"])
next
  case False
  then have v: "visitSheet s2j wb b n = b"
    by (simp add: visitSheet_def validAges_def Let_def)
  show ?thesis
  proof (cases "\<forall>m\<in>set names. validAges s2j wb m = []")
    case True
    then have "b = \<lparr>ages = [], sheetName = [], bestCount = 0\<rparr>" using assms by (simp add: bestOf_def)
    then show ?thesis using False True unfolding bestOf_def v by simp
  next
    case F2: False
    have c: "bestCount b = length (ages b)" using assms by (simp add: bestOf_def)
    have "\<exists>i<length names.
             sheetName b = names ! i \<and> ages b = validAges s2j wb (names ! i) \<and>
             (\<forall>j<length names. length (validAges s2j wb (names ! j)) \<le> length (ages b)) \<and>
             (\<forall>j<i. length (validAges s2j wb (names ! j)) < length (ages b))"
      using assms F2 by (simp add: bestOf_def)
    then obtain i where i: "i < length names" "sheetName b = names ! i"
        "ages b = validAges s2j wb (names ! i)"
        "\<forall>j<length names. length (validAges s2j wb (names ! j)) \<le> length (ages b)"
        "\<forall>j<i. length (validAges s2j wb (names ! j)) < length (ages b)"
      by blast
    have "\<forall>j<length (names @ [n]). length (validAges s2j wb ((names @ [n]) ! j)) \<le> length (ages b)"
      using i(4) False c by (auto simp: nth_append less_Suc_eq)
    moreover have "\<forall>j<i. length (validAges s2j wb ((names @ [n]) ! j)) < length (ages b)"
      using i(1,5) by (auto simp: nth_append)
    ultimately show ?thesis
      unfolding bestOf_def v using F2 i(1,2,3) c
      by (auto simp: nth_append intro!: exI[of _ i])
  qed
qed

lemma bestOf_foldl:
  "bestOf s2j wb names (foldl (visitSheet s2j wb) \<lparr>ages = [], sheetName = [], bestCount = 0\<rparr> names)"
proof (induction names rule: rev_induct)
  case Nil
  show ?case by (simp add: bestOf_def)
next
  case (snoc n names)
  then show ?case using bestOf_step by fastforce
qed

text \<open>
  Claim C4. The result of \<open>findAgesInWorkbook\<close> carries the length of its age list
  as its count, and its ages lie between 0 and 120. When no sheet has a valid age it is
  the object with no ages and the empty sheet name. Otherwise it is the valid-age list
  and the name of a sheet whose list is at least as long as that of every sheet and
  longer than that of every earlier sheet.
\<close>

theorem findAgesInWorkbook_longest:
  "bestCount (findAgesInWorkbook s2j wb) = length (ages (findAgesInWorkbook s2j wb)) \<and>
   (\<forall>a\<in>set (ages (findAgesInWorkbook s2j wb)). 0 \<le> a \<and> a \<le> 120) \<and>
   (if \<forall>n\<in>set (SheetNames wb). validAges s2j wb n = []
    then findAgesInWorkbook s2j wb = \<lparr>ages = [], sheetName = [], bestCount = 0\<rparr>
    else \<exists>i<length (SheetNames wb).
           sheetName (findAgesInWorkbook s2j wb) = SheetNames wb ! i \<and>
           ages (findAgesInWorkbook s2j wb) = validAges s2j wb (SheetNames wb ! i) \<and>
           (\<forall>j<length (SheetNames wb).
              length (validAges s2j wb (SheetNames wb ! j)) \<le> length (validAges s2j wb (SheetNames wb ! i))) \<and>
           (\<forall>j<i. length (validAges s2j wb (SheetNames wb ! j)) < length (validAges s2j wb (SheetNames wb ! i))))"
proof -
  define b where "b = findAgesInWorkbook s2j wb"
  have inv: "bestOf s2j wb (SheetNames wb) b"
    unfolding b_def findAgesInWorkbook_def by (rule bestOf_foldl)
  have valid: "\<forall>a\<in>set (ages b). 0 \<le> a \<and> a \<le> 120"
  proof (cases "\<forall>n\<in>set (SheetNames wb). validAges s2j wb n = []")
    case True
    then show ?thesis using inv by (simp add: bestOf_def)
  next
    case False
    have "\<exists>i. ages b = validAges s2j wb (SheetNames wb ! i)"
      using inv False by (simp add: bestOf_def) blast
    then obtain i where "ages b = validAges s2j wb (SheetNames wb ! i)" by blast
    then show ?thesis using sheetAges_valid by (auto simp: validAges_def)
  qed
  show ?thesis
    unfolding b_def[symmetric] using inv valid unfolding bestOf_def
    by (auto split: if_splits)
qed

text \<open>
  Claim C4 on a workbook whose sheets A, B and C have 1, 3 and 3 valid ages: the result
  is sheet B.
\<close>

theorem findAgesInWorkbook_longest_witness:
  "findAgesInWorkbook rowsOf twoSheets = \<lparr>ages = [7, 6, 41], sheetName = js ''B'', bestCount = 3\<rparr>"
  using findAgesInWorkbook_longest [of rowsOf twoSheets]
  by (simp add: findAgesInWorkbook_def visitSheet_def twoSheets_def rowsOf_def ageRows_def
      sheetAges_def rowAge_def cellAt_def TARGET_COLUMN_INDEX_def floor_unique)

section \<open>Properties of the file-name classification\<close>

lemma canonicalize_punct: "canonicalize c = 46 \<longleftrightarrow> c = 46"
  by (auto simp: canonicalize_def)

lemma sameIgnoringCase_length: "sameIgnoringCase a b \<Longrightarrow> length a = length b"
  unfolding sameIgnoringCase_def by (metis length_map)

lemma sameIgnoringCase_dot:
  "sameIgnoringCase x (46 # e) \<longleftrightarrow> (\<exists>x'. x = 46 # x' \<and> sameIgnoringCase x' e)"
proof -
  have c: "canonicalize 46 = 46" by (simp add: canonicalize_def)
  show ?thesis
    by (cases x) (auto simp: sameIgnoringCase_def c canonicalize_punct)
qed

lemma fileRegexMatch_Some: "fileRegexMatch suffix nm = Some d \<longleftrightarrow> matchesFileName suffix nm d"
  (is "?L \<longleftrightarrow> ?R")
proof
  assume L: ?L
  define r where "r = drop 10 nm"
  define ext where "ext = drop (1 + length suffix) r"
  from L have c: "d = take 10 nm" "isDatePattern d" "r \<noteq> []" "hd r = 95"
      "length suffix \<le> length (tl r)"
      "sameIgnoringCase (take (length suffix) (tl r)) suffix"
      "sameIgnoringCase ext (js ''.xlsx'') \<or> sameIgnoringCase ext (js ''.xls'')"
    unfolding fileRegexMatch_def r_def ext_def by (auto simp: Let_def split: if_splits)
  from c(7) obtain e where e: "ext = 46 # e"
      "sameIgnoringCase e (js ''xlsx'') \<or> sameIgnoringCase e (js ''xls'')"
    by (auto simp: sameIgnoringCase_dot)
  have "nm = d @ r" by (simp add: c(1) r_def)
  moreover have "r = 95 # tl r" using c(3,4) by (cases r) auto
  moreover have "tl r = take (length suffix) (tl r) @ ext"
    by (simp add: ext_def drop_Suc)
  ultimately have "nm = d @ js ''_'' @ take (length suffix) (tl r) @ js ''.'' @ e"
    using e(1) by simp
  then show ?R unfolding matchesFileName_def using c(2,6) e(2) by blast
next
  assume ?R
  then obtain sfx ext where R: "nm = d @ js ''_'' @ sfx @ js ''.'' @ ext" "isDatePattern d"
      "sameIgnoringCase sfx suffix"
      "sameIgnoringCase ext (js ''xlsx'') \<or> sameIgnoringCase ext (js ''xls'')"
    unfolding matchesFileName_def by blast
  have ld: "length d = 10" using R(2) by (simp add: isDatePattern_def)
  have ls: "length sfx = length suffix" using R(3) by (rule sameIgnoringCase_length)
  have "sameIgnoringCase (46 # ext) (js ''.xlsx'') \<or> sameIgnoringCase (46 # ext) (js ''.xls'')"
    using R(4) by (simp add: sameIgnoringCase_dot)
  then show ?L
    unfolding fileRegexMatch_def using R(2,3) ld ls
    by (simp add: R(1) Let_def)
qed

lemma fileRegexMatch_None: "fileRegexMatch suffix nm = None \<longleftrightarrow> (\<forall>d. \<not> matchesFileName suffix nm d)"
  using fileRegexMatch_Some[of suffix nm] by (cases "fileRegexMatch suffix nm") auto

text \<open>The definitions that evaluate numbers, dates and file names on concrete strings.\<close>

lemmas number_eval = Number_def trim_def isWhiteSpace_def strUnsignedDecimalLiteral_def isDigit_def
  exponentPart_def radixValue_def digitOf_def scale10_def

lemmas date_eval = DayFromYear_def InLeapYear_def monthStart_def MakeDay_def YearFromTime_def
  DayWithinYear_def MonthFromTime_def DateFromTime_def WeekDay_def setDate_def
  truncateTowardZero_def formatDate_def showInt_def padStart2_def

lemmas name_eval = classifyName_def fileRegexMatch_def isDatePattern_def isDigit_def
  visitSuffix_def feverSuffix_def sameIgnoringCase_def canonicalize_def

lemma parse_feb_30: "parseDateString (js ''2024-02-30'') = None"
  by (simp add: parseDateString_def number_eval date_eval falsy_def Let_def)

lemma parse_feb_29: "parseDateString (js ''2024-02-29'') = Some 19782"
  by (simp add: parseDateString_def number_eval date_eval falsy_def Let_def)

text \<open>
  Claim C6, as stated, says of the name 2024-02-30 that 30 February rolls over to
  2 March. The date built from (2024, 2 - 1, 30) is not 2 March 2024: 2024 is a leap
  year.
\<close>

theorem feb_30_rollover_counterexample:
  "map_option formatDate (newDate (Fin 2024) (jsSub (Fin 2) (Fin 1)) (Fin 30)) \<noteq> Some (js ''2024-03-02'')"
  by (simp add: date_eval Let_def)

text \<open>
  Claim C6, amended. The name issue is one of "pattern", "date" and the empty string.
  It is "pattern" exactly when the name has not the shape of the convention, and then no
  date is extracted; it is "date" exactly when the name has the shape and its date part
  fails the check of \<open>parseDateString\<close>; it is empty exactly when the name has the
  shape and the date part passes; with the shape, the extracted date is the date part.
  A name without a date has the issue "pattern", the name of 2024-02-30 has the issue
  "date", and the date built from (2024, 2 - 1, 30) is 1 March 2024.
\<close>

theorem classifyName_outcomes:
  "snd (classifyName suffix nm) \<in> {js ''pattern'', js ''date'', []} \<and>
   (snd (classifyName suffix nm) = js ''pattern'' \<longleftrightarrow> (\<forall>d. \<not> matchesFileName suffix nm d)) \<and>
   (snd (classifyName suffix nm) = js ''date'' \<longleftrightarrow>
      (\<exists>d. matchesFileName suffix nm d \<and> parseDateString d = None)) \<and>
   (snd (classifyName suffix nm) = [] \<longleftrightarrow>
      (\<exists>d. matchesFileName suffix nm d \<and> parseDateString d \<noteq> None)) \<and>
   (\<forall>d. matchesFileName suffix nm d \<longrightarrow> fst (classifyName suffix nm) = Some d) \<and>
   ((\<forall>d. \<not> matchesFileName suffix nm d) \<longrightarrow> fst (classifyName suffix nm) = None) \<and>
   classifyName visitSuffix (js ''report_'' @ visitSuffix @ js ''.xlsx'') = (None, js ''pattern'') \<and>
   classifyName visitSuffix (js ''2024-02-30_'' @ visitSuffix @ js ''.xlsx'') =
     (Some (js ''2024-02-30''), js ''date'') \<and>
   map_option formatDate (newDate (Fin 2024) (jsSub (Fin 2) (Fin 1)) (Fin 30)) = Some (js ''2024-03-01'')"
proof -
  have general:
    "snd (classifyName suffix nm) \<in> {js ''pattern'', js ''date'', []} \<and>
     (snd (classifyName suffix nm) = js ''pattern'' \<longleftrightarrow> (\<forall>d. \<not> matchesFileName suffix nm d)) \<and>
     (snd (classifyName suffix nm) = js ''date'' \<longleftrightarrow>
        (\<exists>d. matchesFileName suffix nm d \<and> parseDateString d = None)) \<and>
     (snd (classifyName suffix nm) = [] \<longleftrightarrow>
        (\<exists>d. matchesFileName suffix nm d \<and> parseDateString d \<noteq> None)) \<and>
     (\<forall>d. matchesFileName suffix nm d \<longrightarrow> fst (classifyName suffix nm) = Some d) \<and>
     ((\<forall>d. \<not> matchesFileName suffix nm d) \<longrightarrow> fst (classifyName suffix nm) = None)"
  proof (cases "fileRegexMatch suffix nm")
    case None
    then have "\<forall>d. \<not> matchesFileName suffix nm d" by (simp add: fileRegexMatch_None)
    then show ?thesis using None by (simp add: classifyName_def)
  next
    case (Some d)
    have m: "matchesFileName suffix nm d' \<longleftrightarrow> d' = d" for d'
      using Some fileRegexMatch_Some[of suffix nm d'] by auto
    show ?thesis using Some by (auto simp: classifyName_def m)
  qed
  have e1: "classifyName visitSuffix (js ''report_'' @ visitSuffix @ js ''.xlsx'') = (None, js ''pattern'')"
    by (simp add: name_eval)
  have e2: "classifyName visitSuffix (js ''2024-02-30_'' @ visitSuffix @ js ''.xlsx'') =
      (Some (js ''2024-02-30''), js ''date'')"
    using parse_feb_30 by (simp add: name_eval)
  have e3: "map_option formatDate (newDate (Fin 2024) (jsSub (Fin 2) (Fin 1)) (Fin 30)) =
      Some (js ''2024-03-01'')"
    by (simp add: date_eval Let_def)
  show ?thesis using general e1 e2 e3 by blast
qed

text \<open>
  The amended claim C6 on a name of 29 February 2024 with the extension in capitals,
  and on a visit file taken for a fever file.
\<close>

theorem classifyName_outcomes_witness:
  "classifyName visitSuffix (js ''2024-02-29_'' @ visitSuffix @ js ''.XLS'') = (Some (js ''2024-02-29''), []) \<and>
   matchesFileName visitSuffix (js ''2024-02-29_'' @ visitSuffix @ js ''.XLS'') (js ''2024-02-29'') \<and>
   classifyName feverSuffix (js ''2024-02-29_'' @ visitSuffix @ js ''.xlsx'') = (None, js ''pattern'')"
proof -
  have c: "classifyName visitSuffix (js ''2024-02-29_'' @ visitSuffix @ js ''.XLS'') =
      (Some (js ''2024-02-29''), [])"
    using parse_feb_29 by (simp add: name_eval)
  have p: "classifyName feverSuffix (js ''2024-02-29_'' @ visitSuffix @ js ''.xlsx'') = (None, js ''pattern'')"
    by (simp add: name_eval)
  have "parseDateString (js ''2024-02-29'') \<noteq> None" using parse_feb_29 by simp
  then show ?thesis
    using classifyName_outcomes [of visitSuffix "js ''2024-02-29_'' @ visitSuffix @ js ''.XLS''"] c p
    by (metis snd_conv fst_conv option.inject)
qed

section \<open>Properties of the dates and of analyzeWeekDates\<close>

lemma MonthFromTime_range: "0 \<le> MonthFromTime t \<and> MonthFromTime t \<le> 11"
  by (simp add: MonthFromTime_def Let_def)

lemma setDate_shift: "setDate t d = t + (d - DateFromTime t)"
proof -
  have "MonthFromTime t div 12 = 0" "MonthFromTime t mod 12 = MonthFromTime t"
    using MonthFromTime_range[of t] by simp_all
  then show ?thesis
    by (simp add: setDate_def MakeDay_def DateFromTime_def DayWithinYear_def Let_def)
qed

lemma getWeekStartMonday_shift: "getWeekStartMonday t = t - (WeekDay t + 6) mod 7"
  by (simp add: getWeekStartMonday_def setDate_shift Let_def)

lemma getWeekStartMonday_is_monday: "WeekDay (getWeekStartMonday t) = 1"
  unfolding getWeekStartMonday_shift WeekDay_def by presburger

lemma buildExpectedWeekDates_shift:
  "buildExpectedWeekDates m =
     [formatDate m, formatDate (m + 1), formatDate (m + 2), formatDate (m + 3), formatDate (m + 4),
      formatDate (m + 5)]"
  by (simp add: buildExpectedWeekDates_def setDate_shift)

lemmas week_eval = analyzeWeekDates_def unique_def List.map_filter_def
  getWeekStartMonday_shift buildExpectedWeekDates_shift WeekDay_def

lemma parse_jun_12: "parseDateString (js ''2024-06-12'') = Some 19886"
  by (simp add: parseDateString_def number_eval date_eval falsy_def Let_def)

lemma format_jun_2024:
  "formatDate 19884 = js ''2024-06-10''" "formatDate 19885 = js ''2024-06-11''"
  "formatDate 19886 = js ''2024-06-12''" "formatDate 19887 = js ''2024-06-13''"
  "formatDate 19888 = js ''2024-06-14''" "formatDate 19889 = js ''2024-06-15''"
  by (simp_all add: date_eval Let_def)

lemma week_end_jun_2024:
  "newDate (Fin (of_int (YearFromTime 19884))) (Fin (of_int (MonthFromTime 19884)))
     (Fin (of_int (DateFromTime 19884 + 5))) = Some 19889"
  by (simp add: date_eval Let_def)

text \<open>The example of claim C7: one Wednesday, 12 June 2024.\<close>

lemma analyzeWeekDates_example:
  "analyzeWeekDates [js ''2024-06-12''] =
     Some \<lparr>weekStart = js ''2024-06-10'', weekEnd = js ''2024-06-15'',
           missingDays = [js ''2024-06-10'', js ''2024-06-11'', js ''2024-06-13'', js ''2024-06-14'',
                          js ''2024-06-15''],
           outOfRange = []\<rparr>"
  using parse_jun_12 format_jun_2024 week_end_jun_2024
  by (simp add: week_eval)

lemma parse_year_100: "parseDateString (js ''0100-01-01'') = Some (- 683003)"
  by (simp add: parseDateString_def number_eval date_eval falsy_def Let_def)

lemma format_year_100:
  "formatDate (- 683007) = js ''99-12-28''" "formatDate (- 683006) = js ''99-12-29''"
  "formatDate (- 683005) = js ''99-12-30''" "formatDate (- 683004) = js ''99-12-31''"
  "formatDate (- 683003) = js ''100-01-01''" "formatDate (- 683002) = js ''100-01-02''"
  by (simp_all add: date_eval Let_def)

lemma week_end_year_100:
  "newDate (Fin (of_int (YearFromTime (- 683007)))) (Fin (of_int (MonthFromTime (- 683007))))
     (Fin (of_int (DateFromTime (- 683007) + 5))) = Some 10958"
  "formatDate 10958 = js ''2000-01-02''"
  by (simp_all add: date_eval Let_def)

text \<open>
  Claim C7. \<open>weekEnd\<close> should be \<open>weekStart\<close> plus five days, the Saturday. For the
  single date 0100-01-01, a Friday, the Monday is 28 December of the year 99 and the
  expected dates end at 100-01-02; \<open>weekEnd\<close>, built with \<open>new Date\<close> from the year
  99, is 2000-01-02.
\<close>

theorem analyzeWeekDates_year_100:
  "analyzeWeekDates [js ''0100-01-01''] =
     Some \<lparr>weekStart = js ''99-12-28'', weekEnd = js ''2000-01-02'',
           missingDays = [js ''99-12-28'', js ''99-12-29'', js ''99-12-30'', js ''99-12-31'',
                          js ''100-01-01'', js ''100-01-02''],
           outOfRange = [js ''0100-01-01'']\<rparr>"
  using parse_year_100 format_year_100 week_end_year_100
  by (simp add: week_eval)

section \<open>Properties of the upload warnings\<close>

lemma mapSet_replace:
  "map_of (map (\<lambda>e. if fst e = k then (k, v) else e) m) x =
     (if x = k then (if map_of m k = None then None else Some v) else map_of m x)"
  by (induction m) auto

lemma mapSet_replace_keys: "map fst (map (\<lambda>e. if fst e = k then (k, v) else e) m) = map fst m"
  by (induction m) auto

lemma mapSet_map_of: "map_of (mapSet m k v) = (map_of m)(k \<mapsto> v)"
proof (cases "k \<in> fst ` set m")
  case True
  then have "map_of m k \<noteq> None" by (simp add: map_of_eq_None_iff)
  then show ?thesis using True by (auto simp: mapSet_def mapSet_replace fun_eq_iff)
next
  case False
  then have "map_of m k = None" by (simp add: map_of_eq_None_iff)
  then show ?thesis using False
    by (auto simp: mapSet_def fun_eq_iff map_add_def split: option.splits)
qed

lemma mapSet_keys:
  "map fst (mapSet m k v) = (if k \<in> fst ` set m then map fst m else map fst m @ [k])"
  unfolding mapSet_def using mapSet_replace_keys[of k v m] by simp

lemma mapSet_distinct: "distinct (map fst m) \<Longrightarrow> distinct (map fst (mapSet m k v))"
  by (simp add: mapSet_keys)

lemma dateCounts_snoc:
  "dateCounts (files @ [file]) =
     (case dateString file of
        None \<Rightarrow> dateCounts files
      | Some d \<Rightarrow>
          if d = [] \<or> nameIssue file \<noteq> [] then dateCounts files
          else mapSet (dateCounts files) d
                 ((case mapGet (dateCounts files) d of None \<Rightarrow> 0 | Some c \<Rightarrow> c) + 1))"
  unfolding dateCounts_def by simp

lemma sameDateCount_snoc:
  "sameDateCount (files @ [file]) d =
     sameDateCount files d + (if d \<noteq> [] \<and> dateString file = Some d \<and> nameIssue file = [] then 1 else 0)"
  by (simp add: sameDateCount_def)

lemma dateCounts_inv:
  "distinct (map fst (dateCounts files)) \<and>
   (\<forall>d. map_of (dateCounts files) d =
          (if 0 < sameDateCount files d then Some (sameDateCount files d) else None))"
proof (induction files rule: rev_induct)
  case Nil
  show ?case by (simp add: dateCounts_def sameDateCount_def)
next
  case (snoc f files)
  show ?case
  proof (cases "dateString f")
    case None
    then show ?thesis using snoc by (simp add: dateCounts_snoc sameDateCount_snoc)
  next
    case (Some d)
    show ?thesis
    proof (cases "d = [] \<or> nameIssue f \<noteq> []")
      case True
      then show ?thesis using snoc Some by (auto simp: dateCounts_snoc sameDateCount_snoc)
    next
      case False
      then show ?thesis using snoc Some
        by (auto simp: dateCounts_snoc sameDateCount_snoc mapSet_distinct mapSet_map_of mapGet_def)
    qed
  qed
qed

lemma dateCounts_set:
  "(d, c) \<in> set (dateCounts files) \<longleftrightarrow> 0 < c \<and> c = sameDateCount files d"
proof -
  have "distinct (map fst (dateCounts files))" using dateCounts_inv[of files] by simp
  then have "(d, c) \<in> set (dateCounts files) \<longleftrightarrow> map_of (dateCounts files) d = Some c"
    by simp
  moreover have "map_of (dateCounts files) d =
      (if 0 < sameDateCount files d then Some (sameDateCount files d) else None)"
    using dateCounts_inv[of files] by simp
  ultimately show ?thesis by auto
qed

lemma duplicateDates_set:
  "set (duplicateDates files) = {(d, sameDateCount files d) |d. 1 < sameDateCount files d}"
  by (auto simp: duplicateDates_def dateCounts_set)

lemma duplicateDates_distinct: "distinct (map fst (duplicateDates files))"
  using dateCounts_inv[of files] by (simp add: duplicateDates_def distinct_map_filter)

lemma duplicateDates_empty: "duplicateDates files = [] \<longleftrightarrow> (\<forall>d. sameDateCount files d \<le> 1)"
proof -
  have "duplicateDates files = [] \<longleftrightarrow> set (duplicateDates files) = {}" by simp
  also have "\<dots> \<longleftrightarrow> (\<forall>d. sameDateCount files d \<le> 1)"
    unfolding duplicateDates_set by (auto simp: not_less)
  finally show ?thesis .
qed

lemma other_warnings:
  "duplicateDates files = [] \<Longrightarrow> w \<in> set (buildUploadWarnings files check) \<Longrightarrow>
   take (length duplicateWarning) w \<noteq> duplicateWarning"
  by (auto simp: buildUploadWarnings_def Let_def duplicateWarning_def patternWarning_def
      dateWarning_def readWarning_def outOfRangeWarning_def missingWarning_def
      split: if_splits option.splits)

lemma duplicate_warning:
  "duplicateDates files \<noteq> [] \<Longrightarrow>
   duplicateWarning @ join (js '', '') (map duplicateEntry (duplicateDates files))
     \<in> set (buildUploadWarnings files check)"
  by (simp add: buildUploadWarnings_def Let_def)

lemma parseUploadedFile_ages: "ages (parseUploadedFile s2j suffix file) = uploadedAges s2j file"
  by (simp add: parseUploadedFile_def uploadedAges_def Let_def split: prod.splits option.splits)

lemma handleUploadFiles_state:
  "fs \<noteq> [] \<Longrightarrow>
   \<exists>st. handleUploadFiles s2j fs type = Some st \<and>
        ages st = concat (map (uploadedAges s2j) fs) \<and>
        warnings st = buildUploadWarnings (parsedFiles s2j fs type) (weekCheckOf st)"
  by (simp add: handleUploadFiles_def parsedFiles_def Let_def comp_def parseUploadedFile_ages)

text \<open>
  Claim C8. The duplicated dates are the dates that two or more files without a name
  issue share, each once and with the number of its files. When there is such a date,
  the warnings hold the duplicate-dates warning, which lists every duplicated date with
  its count; when there is none, no warning begins with the words of that warning. The
  ages handed to the setter are the ages of every file of the batch, one file after the
  other, and its warnings are those of the parsed files.
\<close>

theorem duplicate_dates_warned:
  "distinct (map fst (duplicateDates files)) \<and>
   set (duplicateDates files) = {(d, sameDateCount files d) |d. 1 < sameDateCount files d} \<and>
   ((\<exists>d. 1 < sameDateCount files d) \<longrightarrow>
      duplicateWarning @ join (js '', '') (map duplicateEntry (duplicateDates files))
        \<in> set (buildUploadWarnings files check)) \<and>
   ((\<forall>d. sameDateCount files d \<le> 1) \<longrightarrow>
      (\<forall>w\<in>set (buildUploadWarnings files check). take (length duplicateWarning) w \<noteq> duplicateWarning)) \<and>
   (fs \<noteq> [] \<longrightarrow>
      (\<exists>st. handleUploadFiles s2j fs type = Some st \<and>
            ages st = concat (map (uploadedAges s2j) fs) \<and>
            warnings st = buildUploadWarnings (parsedFiles s2j fs type) (weekCheckOf st)))"
proof (intro conjI impI)
  show "distinct (map fst (duplicateDates files))" by (rule duplicateDates_distinct)
  show "set (duplicateDates files) = {(d, sameDateCount files d) |d. 1 < sameDateCount files d}"
    by (rule duplicateDates_set)
next
  assume "\<exists>d. 1 < sameDateCount files d"
  then have "duplicateDates files \<noteq> []" by (auto simp: duplicateDates_empty not_le)
  then show "duplicateWarning @ join (js '', '') (map duplicateEntry (duplicateDates files))
      \<in> set (buildUploadWarnings files check)"
    by (rule duplicate_warning)
next
  assume "\<forall>d. sameDateCount files d \<le> 1"
  then have "duplicateDates files = []" by (simp add: duplicateDates_empty)
  then show "\<forall>w\<in>set (buildUploadWarnings files check). take (length duplicateWarning) w \<noteq> duplicateWarning"
    using other_warnings by blast
next
  assume "fs \<noteq> []"
  then show "\<exists>st. handleUploadFiles s2j fs type = Some st \<and>
      ages st = concat (map (uploadedAges s2j) fs) \<and>
      warnings st = buildUploadWarnings (parsedFiles s2j fs type) (weekCheckOf st)"
    by (rule handleUploadFiles_state)
qed

lemma twoSheets_best:
  "findAgesInWorkbook rowsOf twoSheets = \<lparr>ages = [7, 6, 41], sheetName = js ''B'', bestCount = 3\<rparr>"
  by (simp add: findAgesInWorkbook_def visitSheet_def twoSheets_def rowsOf_def ageRows_def
      sheetAges_def rowAge_def cellAt_def TARGET_COLUMN_INDEX_def floor_unique)

lemma batch_parsed:
  "parsedFiles rowsOf batch (js ''visit'') =
     [\<lparr>ages = [7, 6, 41], name = js ''2024-06-12_'' @ visitSuffix @ js ''.xlsx'',
       dateString = Some (js ''2024-06-12''), nameIssue = [], error = [],
       source = js ''B / '' @ TARGET_COLUMN_LABEL\<rparr>,
      \<lparr>ages = [7, 6, 41], name = js ''2024-06-12_'' @ visitSuffix @ js ''.xls'',
       dateString = Some (js ''2024-06-12''), nameIssue = [], error = [],
       source = js ''B / '' @ TARGET_COLUMN_LABEL\<rparr>,
      \<lparr>ages = [], name = js ''notes.txt'', dateString = None, nameIssue = js ''pattern'',
       error = readError, source = []\<rparr>]"
  using parse_jun_12 twoSheets_best
  by (simp add: parsedFiles_def batch_def parseUploadedFile_def name_eval)

lemma batch_duplicates: "duplicateDates (parsedFiles rowsOf batch (js ''visit'')) = [(js ''2024-06-12'', 2)]"
  using batch_parsed by (simp add: duplicateDates_def dateCounts_def mapSet_def mapGet_def)

text \<open>
  Claim C8 on the batch of the examples: the date 2024-06-12 is counted twice, the
  warning says so, and the ages of both files are kept.
\<close>

theorem duplicate_dates_warned_witness:
  "duplicateDates (parsedFiles rowsOf batch (js ''visit'')) = [(js ''2024-06-12'', 2)] \<and>
   duplicateWarning @ js ''2024-06-12 (2'' @ [44060, 41]
     \<in> set (buildUploadWarnings (parsedFiles rowsOf batch (js ''visit'')) None) \<and>
   map_option ages (handleUploadFiles rowsOf batch (js ''visit'')) = Some [7, 6, 41, 7, 6, 41]"
proof -
  have d: "sameDateCount (parsedFiles rowsOf batch (js ''visit'')) (js ''2024-06-12'') = 2"
    using batch_parsed by (simp add: sameDateCount_def)
  have b: "batch \<noteq> []" by (simp add: batch_def)
  have a: "concat (map (uploadedAges rowsOf) batch) = [7, 6, 41, 7, 6, 41]"
    by (simp add: batch_def uploadedAges_def twoSheets_best)
  have e: "join (js '', '') (map duplicateEntry [(js ''2024-06-12'', 2)]) = js ''2024-06-12 (2'' @ [44060, 41]"
    by (simp add: duplicateEntry_def)
  from d have "\<exists>d. 1 < sameDateCount (parsedFiles rowsOf batch (js ''visit'')) d"
    by (intro exI[of _ "js ''2024-06-12''"]) simp
  then show ?thesis
    using duplicate_dates_warned [of "parsedFiles rowsOf batch (js ''visit'')" None batch rowsOf "js ''visit''"]
      b a e batch_duplicates
    by auto
qed

section \<open>Further properties of analyzeWeekDates\<close>

text \<open>
  What holds of claim C7 on every input: the result is null exactly when no unique
  date parses; otherwise \<open>weekStart\<close> is the Monday of the earliest parsed date, the
  missing days and the dates out of range are those of the window of six days from
  it, and \<open>weekEnd\<close> is the sixth day when the year of the Monday is not a year from
  0 to 99.
\<close>

lemma unique_acc:
  "set (foldl (\<lambda>seen x. if x \<in> set seen then seen else seen @ [x]) acc xs) = set acc \<union> set xs"
  by (induction xs arbitrary: acc) auto

lemma set_unique: "set (unique xs) = set xs"
  by (simp add: unique_def unique_acc)

lemma map_filter_empty: "List.map_filter f xs = [] \<longleftrightarrow> (\<forall>x\<in>set xs. f x = None)"
  by (induction xs) (auto simp: List.map_filter_def)

lemma analyzeWeekDates_None:
  "analyzeWeekDates ds = None \<longleftrightarrow> unique ds = [] \<or> (\<forall>d\<in>set ds. parseDateString d = None)"
  by (auto simp: analyzeWeekDates_def Let_def map_filter_empty set_unique)

lemma truncateTowardZero_int: "truncateTowardZero (of_int i) = i"
  by (simp add: truncateTowardZero_def)

lemma newDate_fields:
  "YearFromTime m < 0 \<or> 99 < YearFromTime m \<Longrightarrow> \<bar>m + k\<bar> \<le> 100000000 \<Longrightarrow>
   newDate (Fin (of_int (YearFromTime m))) (Fin (of_int (MonthFromTime m)))
     (Fin (of_int (DateFromTime m + k))) = Some (m + k)"
proof -
  assume y: "YearFromTime m < 0 \<or> 99 < YearFromTime m" and r: "\<bar>m + k\<bar> \<le> 100000000"
  have t: "truncateTowardZero (of_int (DateFromTime m + k)) = DateFromTime m + k"
    by (rule truncateTowardZero_int)
  have "MakeDay (YearFromTime m) (MonthFromTime m) (DateFromTime m + k) = m + k"
    using setDate_shift[of m "DateFromTime m + k"] by (simp add: setDate_def)
  then show ?thesis
    using y r unfolding newDate.simps truncateTowardZero_int t Let_def by auto
qed

lemma analyzeWeekDates_window:
  assumes "List.map_filter parseDateString (unique ds) \<noteq> []"
  defines "m \<equiv> getWeekStartMonday (hd (sort (List.map_filter parseDateString (unique ds))))"
  shows "\<exists>wc. analyzeWeekDates ds = Some wc \<and> weekStart wc = formatDate m \<and> WeekDay m = 1 \<and>
           missingDays wc = filter (\<lambda>v. v \<notin> set ds) (map (\<lambda>k. formatDate (m + k)) [0, 1, 2, 3, 4, 5]) \<and>
           outOfRange wc =
             sort (filter (\<lambda>v. v \<notin> set (map (\<lambda>k. formatDate (m + k)) [0, 1, 2, 3, 4, 5])) (unique ds)) \<and>
           ((YearFromTime m < 0 \<or> 99 < YearFromTime m) \<and> \<bar>m + 5\<bar> \<le> 100000000 \<longrightarrow>
              weekEnd wc = formatDate (m + 5))"
proof -
  have u: "unique ds \<noteq> []" using assms(1) by (auto simp: List.map_filter_def)
  have e: "buildExpectedWeekDates m = map (\<lambda>k. formatDate (m + k)) [0, 1, 2, 3, 4, 5]"
    by (simp add: buildExpectedWeekDates_shift)
  have w: "WeekDay m = 1" unfolding m_def by (rule getWeekStartMonday_is_monday)
  show ?thesis
    using assms(1) u w newDate_fields[of m 5]
    unfolding analyzeWeekDates_def m_def[symmetric] Let_def e
    by (auto simp: set_unique)
qed

section \<open>The year of a date\<close>

text \<open>
  \<open>YearFromTime\<close> meets its specification in ECMA-262: the year of a day is the
  year whose first day is not after it and whose successor's first day is.
\<close>

lemma div_bounds: "0 < b \<Longrightarrow> b * (a div b) \<le> a \<and> a < b * (a div b) + b" for a b :: int
proof -
  assume b: "0 < b"
  have "a = b * (a div b) + a mod b" by simp
  moreover have "0 \<le> a mod b" "a mod b < b" using b by simp_all
  ultimately show ?thesis by linarith
qed

lemma YearFromTime_spec: "DayFromYear (YearFromTime t) \<le> t \<and> t < DayFromYear (YearFromTime t + 1)"
proof -
  define q where "q = (400 * t) div 146097"
  have q: "146097 * q \<le> 400 * t" "400 * t < 146097 * q + 146097"
    using div_bounds[of 146097 "400 * t"] by (simp_all add: q_def)
  have lo: "DayFromYear (1970 + q - 1) \<le> t"
    using div_bounds[of 4 "q"] div_bounds[of 100 "q + 68"] div_bounds[of 400 "q + 368"] q
    by (simp add: DayFromYear_def)
  have hi: "t < DayFromYear (1970 + q + 1 + 1)"
    using div_bounds[of 4 "q + 3"] div_bounds[of 100 "q + 71"] div_bounds[of 400 "q + 371"] q
    by (simp add: DayFromYear_def)
  show ?thesis
    using lo hi unfolding YearFromTime_def q_def[symmetric] Let_def by auto
qed

end
